theory Spec2Isabelle
  imports
    Complex_Main
    "HOL-Library.Char_ord"
    "HOL-Library.List_Lexorder"
    "HOL-Library.Product_Lexorder"
begin

section \<open>Kaplan-Meier plotting helpers of SurvivalAnalysisUtils.py\<close>

text \<open>
  The module holds two routines, \<^verbatim>\<open>PlotKaplanMeierEstimatesForCategoricalVariables\<close>
  and \<^verbatim>\<open>PlotKaplanMeierEstimatesForContinuousVariables\<close>. Both drive three libraries:
  the table library (\<^verbatim>\<open>pd\<close>, \<^verbatim>\<open>np\<close>), the estimator (\<^verbatim>\<open>KaplanMeierFitter\<close>) and the
  plotting library (\<^verbatim>\<open>plt\<close>). The embedding keeps the routines' own control flow as it
  is written and gives each library call a small executable model:

  \<^item> a table is an association list from column names to typed columns, without
    missing values in its raw columns; selecting a list of labels raises when one of
    them is missing, as the table library does since its version 1.0;
  \<^item> a float is the rational number its printed form denotes (comparisons are exact;
    the arithmetic of \<^verbatim>\<open>pd.cut\<close> with a bin count is done in exact rationals);
  \<^item> the estimator is a parameter \<open>fit\<close> that may raise; every call to it is logged;
  \<^item> the figure is a list of panels; \<^verbatim>\<open>plot\<close> adds a curve to a panel. The axis
    labels, limits and the opacity of the confidence band are constants of the call
    and are not recorded;
  \<^item> the free names \<^verbatim>\<open>plt\<close>, \<^verbatim>\<open>np\<close> and \<^verbatim>\<open>pd\<close> are taken to be bound to the
    libraries, as in the notebooks that load the module.
\<close>

subsection \<open>Exceptions\<close>

datatype error = KeyError | TypeError | ValueError | IndexError

text \<open>Evaluating a list comprehension whose element expression may raise: left to
  right, the first exception wins.\<close>

fun mapE :: "('a \<Rightarrow> error + 'b) \<Rightarrow> 'a list \<Rightarrow> error + 'b list" where
  "mapE f [] = Inr []"
| "mapE f (x # xs) =
     (case f x of
        Inl e \<Rightarrow> Inl e
      | Inr y \<Rightarrow> (case mapE f xs of Inl e \<Rightarrow> Inl e | Inr ys \<Rightarrow> Inr (y # ys)))"

subsection \<open>Text: \<^verbatim>\<open>str\<close> of numbers and \<^verbatim>\<open>str.replace\<close>\<close>

text \<open>The decimal digits of a natural number (given as an integer), of an integer
  and of a float.\<close>

definition digit_char :: "nat \<Rightarrow> char" where
  "digit_char d = ''0123456789'' ! d"

function str_nat :: "int \<Rightarrow> string" where
  "str_nat n = (if n < 10 then [digit_char (nat n)]
                else str_nat (n div 10) @ [digit_char (nat (n mod 10))])"
  by pat_completeness auto
termination
  by (relation "measure nat") auto

declare str_nat.simps [simp del]

definition str_int :: "int \<Rightarrow> string" where
  "str_int i = (if i < 0 then ''-'' @ str_nat (- i) else str_nat i)"

text \<open>The digits after the decimal point of a fraction \<open>0 \<le> q < 1\<close>, at most \<open>fuel\<close>
  of them.\<close>

fun frac_digits :: "nat \<Rightarrow> rat \<Rightarrow> string" where
  "frac_digits 0 q = []"
| "frac_digits (Suc fuel) q =
     (if q = 0 then []
      else let d = nat \<lfloor>10 * q\<rfloor> in digit_char d # frac_digits fuel (10 * q - of_nat d))"

text \<open>\<^verbatim>\<open>str\<close> of a float in positional notation: the integer part, a point and the
  decimals, \<^verbatim>\<open>.0\<close> for a whole number. This is what Python prints for a float whose
  shortest decimal form is the rational \<open>r\<close> and lies between \<open>1e-4\<close> and \<open>1e16\<close> in
  magnitude; exponent notation is outside the model.\<close>

definition str_float :: "rat \<Rightarrow> string" where
  "str_float r =
     (let a = \<bar>r\<bar>; ip = \<lfloor>a\<rfloor>; ds = frac_digits 17 (a - of_int ip)
      in (if r < 0 then ''-'' else []) @ str_nat ip @ ''.'' @ (if ds = [] then ''0'' else ds))"

text \<open>\<^verbatim>\<open>s.replace(c, t)\<close> for a pattern \<open>c\<close> of one character.\<close>

definition str_replace :: "char \<Rightarrow> string \<Rightarrow> string \<Rightarrow> string" where
  "str_replace c t s = concat (map (\<lambda>x. if x = c then t else [x]) s)"

subsection \<open>Tables\<close>

text \<open>A right-closed interval \<^verbatim>\<open>pd.Interval(left, right, closed='right')\<close> with float
  end points.\<close>

datatype interval = Interval (left: rat) (right: rat)

datatype cell = IntV int | FloatV rat | StrV string | IntervalV interval | NaN

text \<open>A column has one dtype: integers, floats, strings, or the categorical result of
  \<^verbatim>\<open>pd.cut\<close>, whose missing entries are \<open>None\<close>.\<close>

datatype column =
    IntCol "int list"
  | FloatCol "rat list"
  | StrCol "string list"
  | CatCol "interval option list"

fun cells :: "column \<Rightarrow> cell list" where
  "cells (IntCol xs) = map IntV xs"
| "cells (FloatCol xs) = map FloatV xs"
| "cells (StrCol xs) = map StrV xs"
| "cells (CatCol xs) = map (\<lambda>x. case x of None \<Rightarrow> NaN | Some i \<Rightarrow> IntervalV i) xs"

type_synonym dataframe = "(string \<times> column) list"

definition n_rows :: "column \<Rightarrow> nat" where
  "n_rows c = length (cells c)"

text \<open>A well-formed table: column names are distinct and all columns have \<open>n\<close> rows.\<close>

definition wf_frame :: "nat \<Rightarrow> dataframe \<Rightarrow> bool" where
  "wf_frame n df \<longleftrightarrow> distinct (map fst df) \<and> (\<forall>c \<in> set (map snd df). n_rows c = n)"

text \<open>\<^verbatim>\<open>data[name]\<close>\<close>

definition getitem :: "dataframe \<Rightarrow> string \<Rightarrow> error + column" where
  "getitem df name = (case map_of df name of None \<Rightarrow> Inl KeyError | Some c \<Rightarrow> Inr c)"

text \<open>\<^verbatim>\<open>data.loc(axis=1)[names]\<close>: the projection on a list of labels; it raises when a
  label is missing.\<close>

definition loc_columns :: "dataframe \<Rightarrow> string list \<Rightarrow> error + dataframe" where
  "loc_columns df names =
     (if \<forall>n \<in> set names. map_of df n \<noteq> None
      then Inr (map (\<lambda>n. (n, the (map_of df n))) names)
      else Inl KeyError)"

text \<open>\<^verbatim>\<open>data[name] = column\<close>: replaces the column in place, or appends it.\<close>

fun setitem :: "dataframe \<Rightarrow> string \<Rightarrow> column \<Rightarrow> dataframe" where
  "setitem [] name c = [(name, c)]"
| "setitem ((n, c') # df) name c =
     (if n = name then (n, c) # df else (n, c') # setitem df name c)"

text \<open>\<^verbatim>\<open>data.drop(name, axis=1, inplace=True)\<close>\<close>

definition drop_column :: "dataframe \<Rightarrow> string \<Rightarrow> error + dataframe" where
  "drop_column df name =
     (if map_of df name = None then Inl KeyError
      else Inr (filter (\<lambda>(n, c). n \<noteq> name) df))"

text \<open>\<^verbatim>\<open>series == value\<close>, element by element; a missing entry equals nothing.\<close>

definition elem_eq :: "cell \<Rightarrow> cell \<Rightarrow> bool" where
  "elem_eq c v \<longleftrightarrow> c = v \<and> c \<noteq> NaN"

definition eq_mask :: "column \<Rightarrow> cell \<Rightarrow> bool list" where
  "eq_mask c v = map (\<lambda>x. elem_eq x v) (cells c)"

text \<open>\<^verbatim>\<open>data[mask][name]\<close>: the rows of column \<open>name\<close> where the mask holds.\<close>

definition select_rows :: "bool list \<Rightarrow> cell list \<Rightarrow> cell list" where
  "select_rows msk xs = map snd (filter fst (zip msk xs))"

definition masked_column :: "dataframe \<Rightarrow> bool list \<Rightarrow> string \<Rightarrow> error + cell list" where
  "masked_column df msk name =
     (case getitem df name of Inl e \<Rightarrow> Inl e | Inr c \<Rightarrow> Inr (select_rows msk (cells c)))"

text \<open>\<^verbatim>\<open>np.unique\<close>: sort, then keep the first of each run of equal values. Intervals
  compare by their end points. A categorical column with missing entries becomes an
  object array: sorting it compares a float with an interval and raises, unless it
  holds missing entries only, which are kept one by one.\<close>

definition interval_key :: "interval \<Rightarrow> rat \<times> rat" where
  "interval_key i = (left i, right i)"

fun np_unique :: "column \<Rightarrow> error + cell list" where
  "np_unique (IntCol xs) = Inr (map IntV (remdups_adj (sort xs)))"
| "np_unique (FloatCol xs) = Inr (map FloatV (remdups_adj (sort xs)))"
| "np_unique (StrCol xs) = Inr (map StrV (remdups_adj (sort xs)))"
| "np_unique (CatCol xs) =
     (if \<forall>x \<in> set xs. x \<noteq> None
      then Inr (map IntervalV (remdups_adj (sort_key interval_key (map the xs))))
      else if \<forall>x \<in> set xs. x = None then Inr (map (\<lambda>x. NaN) xs)
      else Inl TypeError)"

text \<open>\<^verbatim>\<open>str(value)\<close>\<close>

fun str_interval :: "interval \<Rightarrow> string" where
  "str_interval (Interval l r) = ''('' @ str_float l @ '', '' @ str_float r @ '']''"

fun str_cell :: "cell \<Rightarrow> string" where
  "str_cell (IntV i) = str_int i"
| "str_cell (FloatV r) = str_float r"
| "str_cell (StrV s) = s"
| "str_cell (IntervalV i) = str_interval i"
| "str_cell NaN = ''nan''"

subsection \<open>The estimator and the figure\<close>

text \<open>What one call \<^verbatim>\<open>KaplanMeierFitter().fit(durations, event_observed, label)\<close> is
  given.\<close>

record fit_call =
  durations :: "cell list"
  event_observed :: "cell list"
  label :: string

record 'c panel =
  curves :: "'c list"
  title :: "string option"
  visible :: bool

text \<open>The state the routines act on: the caller's table, the figure (\<open>None\<close> until
  \<^verbatim>\<open>plt.subplots\<close> has run), the estimator calls made so far, the figure's title and
  whether \<^verbatim>\<open>plt.show\<close> has run.\<close>

record 'c world =
  frame :: dataframe
  axes :: "'c panel list option"
  fit_log :: "fit_call list"
  suptitle :: "string option"
  shown :: bool

definition subplots :: "nat \<Rightarrow> nat \<Rightarrow> 'c panel list" where
  "subplots nrows ncols = replicate (nrows * ncols) \<lparr>curves = [], title = None, visible = True\<rparr>"

text \<open>\<^verbatim>\<open>[KaplanMeierFitter().fit(...) for i, (x_i, y_i) in enumerate(zip(X, Y))]\<close>\<close>

fun fit_all :: "(fit_call \<Rightarrow> error + 'c) \<Rightarrow> fit_call list \<Rightarrow> 'c world \<Rightarrow> (error + 'c list) \<times> 'c world" where
  "fit_all fit [] w = (Inr [], w)"
| "fit_all fit (r # rs) w =
     (let w1 = w\<lparr>fit_log := fit_log w @ [r]\<rparr>
      in case fit r of
           Inl e \<Rightarrow> (Inl e, w1)
         | Inr c \<Rightarrow>
             (case fit_all fit rs w1 of
                (Inl e, w2) \<Rightarrow> (Inl e, w2)
              | (Inr cs, w2) \<Rightarrow> (Inr (c # cs), w2)))"

text \<open>\<^verbatim>\<open>[x.plot(title=feature, ..., ax=ax.flatten()[idx]) for x in fits]\<close>: the panel is
  looked up once per curve, so an index outside the grid raises only when there is a
  curve to plot. Both routines create the figure before they plot or hide anything;
  the case of a missing figure is there to make the functions total.\<close>

fun plot_all :: "string \<Rightarrow> nat \<Rightarrow> 'c list \<Rightarrow> 'c world \<Rightarrow> (error + unit) \<times> 'c world" where
  "plot_all feature idx [] w = (Inr (), w)"
| "plot_all feature idx (x # xs) w =
     (case axes w of
        None \<Rightarrow> (Inl IndexError, w)
      | Some ax \<Rightarrow>
          if idx < length ax
          then plot_all feature idx xs
                 (w\<lparr>axes := Some (ax[idx := (ax ! idx)\<lparr>curves := curves (ax ! idx) @ [x],
                                                        title := Some feature\<rparr>])\<rparr>)
          else (Inl IndexError, w))"

text \<open>\<^verbatim>\<open>ax.flatten()[-k].set_visible(False)\<close>\<close>

definition hide_from_end :: "nat \<Rightarrow> 'c world \<Rightarrow> (error + unit) \<times> 'c world" where
  "hide_from_end k w =
     (case axes w of
        None \<Rightarrow> (Inl IndexError, w)
      | Some ax \<Rightarrow>
          if 0 < k \<and> k \<le> length ax
          then (Inr (), w\<lparr>axes := Some (ax[length ax - k := (ax ! (length ax - k))\<lparr>visible := False\<rparr>])\<rparr>)
          else (Inl IndexError, w))"

subsection \<open>The categorical routine\<close>

text \<open>The inner \<^verbatim>\<open>km_fits\<close> up to the estimator calls: the distinct values, the two
  lists of selected series \<open>X\<close> and \<open>Y\<close>, the labels, and the arguments of each call.\<close>

definition select_series :: "dataframe \<Rightarrow> string \<Rightarrow> cell list \<Rightarrow> string \<Rightarrow> error + cell list list" where
  "select_series df feature range_hue name =
     mapE (\<lambda>x. case getitem df feature of
                  Inl e \<Rightarrow> Inl e
                | Inr c \<Rightarrow> masked_column df (eq_mask c x) name) range_hue"

definition fit_requests :: "cell list list \<Rightarrow> cell list list \<Rightarrow> string list \<Rightarrow> fit_call list" where
  "fit_requests X Y fit_label =
     map (\<lambda>(i, (x_i, y_i)). \<lparr>durations = x_i, event_observed = y_i, label = fit_label ! i\<rparr>)
         (enumerate 0 (zip X Y))"

definition cat_requests :: "dataframe \<Rightarrow> string \<Rightarrow> error + fit_call list" where
  "cat_requests df feature =
     (case getitem df feature of
        Inl e \<Rightarrow> Inl e
      | Inr c \<Rightarrow>
     (case np_unique c of
        Inl e \<Rightarrow> Inl e
      | Inr range_hue \<Rightarrow>
     (case select_series df feature range_hue ''time'' of
        Inl e \<Rightarrow> Inl e
      | Inr X \<Rightarrow>
     (case select_series df feature range_hue ''DEATH_EVENT'' of
        Inl e \<Rightarrow> Inl e
      | Inr Y \<Rightarrow>
          Inr (fit_requests X Y (map (\<lambda>v. feature @ '': '' @ str_cell v) range_hue))))))"

definition cat_km_fits :: "(fit_call \<Rightarrow> error + 'c) \<Rightarrow> string \<Rightarrow> 'c world \<Rightarrow> (error + 'c list) \<times> 'c world" where
  "cat_km_fits fit feature w =
     (case cat_requests (frame w) feature of
        Inl e \<Rightarrow> (Inl e, w)
      | Inr reqs \<Rightarrow> fit_all fit reqs w)"

text \<open>The loop \<^verbatim>\<open>for idx, feature in enumerate(categorical_columns)\<close>.\<close>

fun cat_loop :: "(fit_call \<Rightarrow> error + 'c) \<Rightarrow> nat \<Rightarrow> string list \<Rightarrow> 'c world \<Rightarrow> (error + unit) \<times> 'c world" where
  "cat_loop fit idx [] w = (Inr (), w)"
| "cat_loop fit idx (feature # rest) w =
     (case cat_km_fits fit feature w of
        (Inl e, w1) \<Rightarrow> (Inl e, w1)
      | (Inr cat_fits, w1) \<Rightarrow>
          (case plot_all feature idx cat_fits w1 of
             (Inl e, w2) \<Rightarrow> (Inl e, w2)
           | (Inr u, w2) \<Rightarrow> cat_loop fit (Suc idx) rest w2))"

definition PlotKaplanMeierEstimatesForCategoricalVariables ::
  "(fit_call \<Rightarrow> error + 'c) \<Rightarrow> string list \<Rightarrow> 'c world \<Rightarrow> (error + unit) \<times> 'c world" where
  "PlotKaplanMeierEstimatesForCategoricalVariables fit categorical_columns w =
     (case loc_columns (frame w) categorical_columns of
        Inl e \<Rightarrow> (Inl e, w)
      | Inr categoricalData \<Rightarrow>
          let w1 = w\<lparr>axes := Some (subplots 2 3)\<rparr> in
          (case cat_loop fit 0 categorical_columns w1 of
             (Inl e, w2) \<Rightarrow> (Inl e, w2)
           | (Inr u, w2) \<Rightarrow>
               (case hide_from_end 1 w2 of
                  (Inl e, w3) \<Rightarrow> (Inl e, w3)
                | (Inr u, w3) \<Rightarrow>
                    (Inr (), w3\<lparr>suptitle := Some ''Kaplan Meier Estimates for Categorical Variables '',
                                shown := True\<rparr>))))"

subsection \<open>Binning: \<^verbatim>\<open>pd.cut\<close>\<close>

text \<open>A bin specification is a list of cut points or a number of bins.\<close>

datatype bin_spec = Edges "rat list" | NBins int

fun numeric :: "column \<Rightarrow> rat list option" where
  "numeric (IntCol xs) = Some (map of_int xs)"
| "numeric (FloatCol xs) = Some xs"
| "numeric (StrCol xs) = None"
| "numeric (CatCol xs) = None"

text \<open>\<^verbatim>\<open>np.linspace(start, stop, num)\<close>\<close>

definition linspace :: "rat \<Rightarrow> rat \<Rightarrow> nat \<Rightarrow> rat list" where
  "linspace start stop num =
     map (\<lambda>i. start + (stop - start) * of_nat i / of_nat (num - 1)) [0..<num]"

text \<open>The edges for a number of bins: the range of the data in equal parts, widened by
  0.1 percent of the range on the left (on both sides of a single value).\<close>

definition nbins_to_bins :: "rat list \<Rightarrow> nat \<Rightarrow> rat list" where
  "nbins_to_bins xs nbins =
     (let mn = fold min (tl xs) (hd xs); mx = fold max (tl xs) (hd xs)
      in if mn = mx
         then linspace (mn - (if mn \<noteq> 0 then \<bar>mn\<bar> / 1000 else 1 / 1000))
                       (mx + (if mx \<noteq> 0 then \<bar>mx\<bar> / 1000 else 1 / 1000)) (nbins + 1)
         else (let bins = linspace mn mx (nbins + 1); adj = (mx - mn) / 1000
               in bins[0 := bins ! 0 - adj]))"

text \<open>The end points shown by an interval are the edges rounded for display:
  \<^verbatim>\<open>np.around\<close> rounds half to even, \<^verbatim>\<open>_round_frac\<close> keeps \<open>precision\<close> digits after the
  leading zeros of a number below one, and \<^verbatim>\<open>_infer_precision\<close> raises the precision
  from 3 until the rounded edges are distinct.\<close>

definition round_half_even :: "rat \<Rightarrow> int" where
  "round_half_even q =
     (let f = \<lfloor>q\<rfloor>; d = q - of_int f
      in if d < 1 / 2 then f else if 1 / 2 < d then f + 1 else if even f then f else f + 1)"

definition around :: "rat \<Rightarrow> nat \<Rightarrow> rat" where
  "around x digits = of_int (round_half_even (x * 10 ^ digits)) / 10 ^ digits"

fun leading_zeros :: "nat \<Rightarrow> rat \<Rightarrow> nat" where
  "leading_zeros 0 a = 0"
| "leading_zeros (Suc fuel) a = (if 1 \<le> 10 * a then 0 else Suc (leading_zeros fuel (10 * a)))"

definition round_frac :: "rat \<Rightarrow> nat \<Rightarrow> rat" where
  "round_frac x precision =
     (if x = 0 then x
      else if \<bar>x\<bar> < 1
           then around x (leading_zeros (nat (snd (quotient_of \<bar>x\<bar>))) \<bar>x\<bar> + precision)
           else around x precision)"

definition infer_precision :: "nat \<Rightarrow> rat list \<Rightarrow> nat" where
  "infer_precision base_precision bins =
     (case find (\<lambda>p. distinct (map (\<lambda>b. round_frac b p) bins)) [base_precision..<20] of
        Some p \<Rightarrow> p
      | None \<Rightarrow> base_precision)"

definition format_labels :: "rat list \<Rightarrow> rat list" where
  "format_labels bins = (let precision = infer_precision 3 bins in map (\<lambda>b. round_frac b precision) bins)"

text \<open>\<^verbatim>\<open>bins.searchsorted(v, side='left')\<close> on increasing edges: how many edges lie
  strictly below \<open>v\<close>.\<close>

definition searchsorted :: "rat list \<Rightarrow> rat \<Rightarrow> nat" where
  "searchsorted bins v = length (takeWhile (\<lambda>b. b < v) bins)"

text \<open>A value at position 0 (not above the first edge) or past the last edge gets no
  bin. The others get the right-closed interval between the two edges around them.\<close>

definition assign_bin :: "rat list \<Rightarrow> rat list \<Rightarrow> rat \<Rightarrow> interval option" where
  "assign_bin bins breaks v =
     (let i = searchsorted bins v
      in if i = length bins \<or> i = 0 then None
         else Some (Interval (breaks ! (i - 1)) (breaks ! i)))"

definition bins_to_cuts :: "rat list \<Rightarrow> rat list \<Rightarrow> error + interval option list" where
  "bins_to_cuts xs bins =
     (if \<not> distinct bins \<and> length bins \<noteq> 2 then Inl ValueError
      else Inr (map (assign_bin bins (format_labels bins)) xs))"

text \<open>\<^verbatim>\<open>pd.cut(x, bins)\<close>, with the checks in the library's order: cut points must
  increase and must not repeat, a number of bins must be positive and the data not
  empty; values that are not numbers fail in the comparison with the edges.\<close>

fun pd_cut :: "column \<Rightarrow> bin_spec \<Rightarrow> error + interval option list" where
  "pd_cut x (Edges bins) =
     (if \<not> sorted bins then Inl ValueError
      else if \<not> distinct bins \<and> length bins \<noteq> 2 then Inl ValueError
      else case numeric x of
             None \<Rightarrow> Inl TypeError
           | Some xs \<Rightarrow> bins_to_cuts xs bins)"
| "pd_cut x (NBins nbins) =
     (if nbins < 1 then Inl ValueError
      else if n_rows x = 0 then Inl ValueError
      else case numeric x of
             None \<Rightarrow> Inl TypeError
           | Some xs \<Rightarrow> bins_to_cuts xs (nbins_to_bins xs (nat nbins)))"

subsection \<open>The continuous routine\<close>

text \<open>The inner \<^verbatim>\<open>km_fits\<close> up to the estimator calls. The scratch column
  \<^verbatim>\<open>feature + "_group"\<close> is written into the caller's table, read for \<open>X\<close> and \<open>Y\<close>,
  and dropped after the labels are built. The column is binned twice, once for
  \<^verbatim>\<open>np.unique\<close> and once for the scratch column; the table is the same both times.\<close>

definition fit_label_of :: "cell \<Rightarrow> string" where
  "fit_label_of range_hue_i =
     str_replace (CHR '']'') '')'' (str_replace (CHR '','') '' -'' (str_cell range_hue_i))"

definition cont_requests :: "string \<Rightarrow> bin_spec \<Rightarrow> 'c world \<Rightarrow> (error + fit_call list) \<times> 'c world" where
  "cont_requests feature split_points w =
     (case getitem (frame w) feature of
        Inl e \<Rightarrow> (Inl e, w)
      | Inr c \<Rightarrow>
     (case pd_cut c split_points of
        Inl e \<Rightarrow> (Inl e, w)
      | Inr bins \<Rightarrow>
     (case np_unique (CatCol bins) of
        Inl e \<Rightarrow> (Inl e, w)
      | Inr range_hue \<Rightarrow>
     (let hue_group = feature @ ''_group'' in
     (case pd_cut c split_points of
        Inl e \<Rightarrow> (Inl e, w)
      | Inr groups \<Rightarrow>
     (let w1 = w\<lparr>frame := setitem (frame w) hue_group (CatCol groups)\<rparr> in
     (case select_series (frame w1) hue_group range_hue ''time'' of
        Inl e \<Rightarrow> (Inl e, w1)
      | Inr X \<Rightarrow>
     (case select_series (frame w1) hue_group range_hue ''DEATH_EVENT'' of
        Inl e \<Rightarrow> (Inl e, w1)
      | Inr Y \<Rightarrow>
     (let fit_label = map fit_label_of range_hue in
     (case drop_column (frame w1) hue_group of
        Inl e \<Rightarrow> (Inl e, w1)
      | Inr df \<Rightarrow> (Inr (fit_requests X Y fit_label), w1\<lparr>frame := df\<rparr>)))))))))))"

definition cont_km_fits ::
  "(fit_call \<Rightarrow> error + 'c) \<Rightarrow> string \<Rightarrow> bin_spec \<Rightarrow> 'c world \<Rightarrow> (error + 'c list) \<times> 'c world" where
  "cont_km_fits fit feature split_points w =
     (case cont_requests feature split_points w of
        (Inl e, w1) \<Rightarrow> (Inl e, w1)
      | (Inr reqs, w1) \<Rightarrow> fit_all fit reqs w1)"

definition data_split_points :: "bin_spec list" where
  "data_split_points =
     [Edges [30, 60, 80, 100], NBins 3, Edges [0, 30, 45, 100], NBins 3, NBins 3, NBins 3, NBins 3]"

text \<open>The loop \<^verbatim>\<open>for idx, feature in enumerate(contituous_columns)\<close>. The argument
  \<^verbatim>\<open>data_split_points[idx]\<close> is evaluated before \<^verbatim>\<open>km_fits\<close> is entered.\<close>

fun cont_loop :: "(fit_call \<Rightarrow> error + 'c) \<Rightarrow> nat \<Rightarrow> string list \<Rightarrow> 'c world \<Rightarrow> (error + unit) \<times> 'c world" where
  "cont_loop fit idx [] w = (Inr (), w)"
| "cont_loop fit idx (feature # rest) w =
     (if length data_split_points \<le> idx then (Inl IndexError, w)
      else case cont_km_fits fit feature (data_split_points ! idx) w of
             (Inl e, w1) \<Rightarrow> (Inl e, w1)
           | (Inr cont_fits, w1) \<Rightarrow>
               (case plot_all feature idx cont_fits w1 of
                  (Inl e, w2) \<Rightarrow> (Inl e, w2)
                | (Inr u, w2) \<Rightarrow> cont_loop fit (Suc idx) rest w2))"

definition PlotKaplanMeierEstimatesForContinuousVariables ::
  "(fit_call \<Rightarrow> error + 'c) \<Rightarrow> string list \<Rightarrow> 'c world \<Rightarrow> (error + unit) \<times> 'c world" where
  "PlotKaplanMeierEstimatesForContinuousVariables fit contituous_columns w =
     (case loc_columns (frame w) contituous_columns of
        Inl e \<Rightarrow> (Inl e, w)
      | Inr continuousData \<Rightarrow>
          let w1 = w\<lparr>axes := Some (subplots 3 3)\<rparr> in
          (case cont_loop fit 0 contituous_columns w1 of
             (Inl e, w2) \<Rightarrow> (Inl e, w2)
           | (Inr u, w2) \<Rightarrow>
               (case hide_from_end 1 w2 of
                  (Inl e, w3) \<Rightarrow> (Inl e, w3)
                | (Inr u, w3) \<Rightarrow>
                    (case hide_from_end 2 w3 of
                       (Inl e, w4) \<Rightarrow> (Inl e, w4)
                     | (Inr u, w4) \<Rightarrow>
                         (Inr (), w4\<lparr>suptitle := Some ''Kaplan Meier Estimates for Continuous Variables '',
                                     shown := True\<rparr>)))))"

subsection \<open>Sample tables and calls\<close>

text \<open>An estimator that accepts every call and returns its arguments as the curve, one
  that rejects every call, and the state before a routine is called on a table.\<close>

definition recording_fit :: "fit_call \<Rightarrow> error + fit_call" where
  "recording_fit r = Inr r"

definition failing_fit :: "fit_call \<Rightarrow> error + fit_call" where
  "failing_fit r = Inl ValueError"

definition world0 :: "dataframe \<Rightarrow> fit_call world" where
  "world0 df = \<lparr>frame = df, axes = None, fit_log = [], suptitle = None, shown = False\<rparr>"

definition sex_frame :: dataframe where
  "sex_frame =
     [(''sex'', IntCol [0, 1, 0, 0, 1, 0, 1, 0, 1, 0]),
      (''time'', IntCol [4, 6, 7, 7, 8, 8, 10, 10, 10, 11]),
      (''DEATH_EVENT'', IntCol [1, 1, 1, 1, 1, 1, 1, 1, 1, 0])]"

definition age_frame :: dataframe where
  "age_frame =
     [(''age'', FloatCol [75, 55, 65, 50, 90]),
      (''time'', IntCol [4, 6, 7, 7, 8]),
      (''DEATH_EVENT'', IntCol [1, 1, 1, 1, 0])]"

definition six_frame :: dataframe where
  "six_frame =
     [(''anaemia'', IntCol [0, 1, 0, 1]),
      (''diabetes'', IntCol [0, 0, 1, 1]),
      (''high_blood_pressure'', IntCol [1, 0, 0, 1]),
      (''sex'', IntCol [1, 1, 0, 0]),
      (''smoking'', IntCol [0, 1, 1, 0]),
      (''obesity'', IntCol [1, 0, 1, 0]),
      (''time'', IntCol [4, 6, 7, 8]),
      (''DEATH_EVENT'', IntCol [1, 0, 1, 1])]"

definition six_columns :: "string list" where
  "six_columns =
     [''anaemia'', ''diabetes'', ''high_blood_pressure'', ''sex'', ''smoking'', ''obesity'']"

definition no_time_frame :: dataframe where
  "no_time_frame = [(''age'', FloatCol [75, 55]), (''DEATH_EVENT'', IntCol [1, 0])]"

definition eight_columns :: "string list" where
  "eight_columns =
     [''bmi'', ''age'', ''creatinine_phosphokinase'', ''ejection_fraction'',
      ''platelets'', ''serum_creatinine'', ''serum_sodium'', ''time'']"

definition ward_frame :: dataframe where
  "ward_frame =
     [(''ward'', StrCol [''a'', ''b'']),
      (''time'', IntCol [4, 6]),
      (''DEATH_EVENT'', IntCol [1, 0])]"



definition age_requests :: "fit_call list" where
  "age_requests =
     [\<lparr>durations = [IntV 6, IntV 7], event_observed = [IntV 1, IntV 1], label = ''(30.0 - 60.0)''\<rparr>,
      \<lparr>durations = [IntV 4, IntV 7], event_observed = [IntV 1, IntV 1], label = ''(60.0 - 80.0)''\<rparr>,
      \<lparr>durations = [IntV 8], event_observed = [IntV 0], label = ''(80.0 - 100.0)''\<rparr>]"




text \<open>A table with the seven continuous columns of the study, three patients, and one
  more numeric column; the eight names, the continuous columns first.\<close>

definition wide_frame :: dataframe where
  "wide_frame =
     [(''age'', FloatCol [75, 55, 90]),
      (''creatinine_phosphokinase'', IntCol [582, 7861, 146]),
      (''ejection_fraction'', IntCol [20, 38, 60]),
      (''platelets'', FloatCol [265000, 263358, 162000]),
      (''serum_creatinine'', FloatCol [19 / 10, 11 / 10, 13 / 10]),
      (''serum_sodium'', IntCol [130, 136, 129]),
      (''time'', IntCol [4, 6, 7]),
      (''bmi'', FloatCol [22, 27, 31]),
      (''DEATH_EVENT'', IntCol [1, 1, 0])]"

definition wide_columns :: "string list" where
  "wide_columns =
     [''age'', ''creatinine_phosphokinase'', ''ejection_fraction'', ''platelets'',
      ''serum_creatinine'', ''serum_sodium'', ''time'', ''bmi'']"

section \<open>Properties\<close>

subsection \<open>What the steps leave unchanged\<close>


lemma fit_all_frame: "fit_all fit rs w = (r, w') \<Longrightarrow> frame w' = frame w \<and> axes w' = axes w"
  by (induction rs arbitrary: w r w') (auto simp: Let_def split: sum.splits prod.splits)

lemma plot_all_frame: "plot_all f idx cs w = (r, w') \<Longrightarrow> frame w' = frame w \<and> fit_log w' = fit_log w"
  by (induction cs arbitrary: w r w') (auto split: option.splits if_splits)

lemma plot_all_visible:
  "plot_all f idx cs w = (r, w') \<Longrightarrow> axes w = Some ax \<Longrightarrow>
     \<exists>ax'. axes w' = Some ax' \<and> map visible ax' = map visible ax"
proof (induction cs arbitrary: w r w' ax)
  case Nil
  then show ?case by simp
next
  case (Cons x xs)
  show ?case
  proof (cases "idx < length ax")
    case True
    let ?ax = "ax[idx := (ax ! idx)\<lparr>curves := curves (ax ! idx) @ [x], title := Some f\<rparr>]"
    from Cons.prems True have "plot_all f idx xs (w\<lparr>axes := Some ?ax\<rparr>) = (r, w')" by simp
    from Cons.IH[OF this, of ?ax] obtain ax' where "axes w' = Some ax'" "map visible ax' = map visible ?ax"
      by auto
    moreover have "map visible ?ax = map visible ax"
      using True by (simp add: map_update list_update_same_conv)
    ultimately show ?thesis by simp
  next
    case False
    with Cons.prems show ?thesis by simp
  qed
qed

lemma cont_requests_axes:
  "cont_requests f sp w = (r, w') \<Longrightarrow> axes w' = axes w \<and> fit_log w' = fit_log w"
  by (auto simp: cont_requests_def Let_def split: sum.splits)

lemma cont_km_fits_axes: "cont_km_fits fit f sp w = (r, w') \<Longrightarrow> axes w' = axes w"
  by (auto simp: cont_km_fits_def split: sum.splits prod.splits dest!: cont_requests_axes fit_all_frame)

lemma cat_km_fits_axes: "cat_km_fits fit f w = (r, w') \<Longrightarrow> axes w' = axes w \<and> frame w' = frame w"
  by (auto simp: cat_km_fits_def split: sum.splits dest!: fit_all_frame)

lemma cat_loop_visible:
  "cat_loop fit idx cols w = (r, w') \<Longrightarrow> axes w = Some ax \<Longrightarrow>
     \<exists>ax'. axes w' = Some ax' \<and> map visible ax' = map visible ax"
proof (induction cols arbitrary: idx w ax)
  case Nil
  then show ?case by simp
next
  case (Cons f rest)
  obtain r1 w1 where k: "cat_km_fits fit f w = (r1, w1)" by (cases "cat_km_fits fit f w")
  then have a1: "axes w1 = Some ax" using Cons.prems(2) by (auto dest: cat_km_fits_axes)
  show ?case
  proof (cases r1)
    case (Inl e)
    with Cons.prems k a1 show ?thesis by auto
  next
    case (Inr fits)
    obtain r2 w2 where p: "plot_all f idx fits w1 = (r2, w2)" by (cases "plot_all f idx fits w1")
    from plot_all_visible[OF p a1] obtain ax2 where a2: "axes w2 = Some ax2" "map visible ax2 = map visible ax"
      by auto
    show ?thesis
    proof (cases r2)
      case (Inl e)
      with Cons.prems k Inr p a2 show ?thesis by auto
    next
      case (Inr u)
      with Cons.prems k \<open>r1 = Inr fits\<close> p have "cat_loop fit (Suc idx) rest w2 = (r, w')" by simp
      from Cons.IH[OF this a2(1)] a2(2) show ?thesis by auto
    qed
  qed
qed

lemma cont_loop_visible:
  "cont_loop fit idx cols w = (r, w') \<Longrightarrow> axes w = Some ax \<Longrightarrow>
     \<exists>ax'. axes w' = Some ax' \<and> map visible ax' = map visible ax"
proof (induction cols arbitrary: idx w ax)
  case Nil
  then show ?case by simp
next
  case (Cons f rest)
  show ?case
  proof (cases "length data_split_points \<le> idx")
    case True
    with Cons.prems show ?thesis by auto
  next
    case False
    obtain r1 w1 where k: "cont_km_fits fit f (data_split_points ! idx) w = (r1, w1)"
      by (cases "cont_km_fits fit f (data_split_points ! idx) w")
    then have a1: "axes w1 = Some ax" using Cons.prems(2) by (auto dest: cont_km_fits_axes)
    show ?thesis
    proof (cases r1)
      case (Inl e)
      with Cons.prems k a1 False show ?thesis by auto
    next
      case (Inr fits)
      obtain r2 w2 where p: "plot_all f idx fits w1 = (r2, w2)" by (cases "plot_all f idx fits w1")
      from plot_all_visible[OF p a1] obtain ax2 where a2: "axes w2 = Some ax2" "map visible ax2 = map visible ax"
        by auto
      show ?thesis
      proof (cases r2)
        case (Inl e)
        with Cons.prems k Inr p a2 False show ?thesis by auto
      next
        case (Inr u)
        with Cons.prems k \<open>r1 = Inr fits\<close> p False have "cont_loop fit (Suc idx) rest w2 = (r, w')" by simp
        from Cons.IH[OF this a2(1)] a2(2) show ?thesis by auto
      qed
    qed
  qed
qed

lemma hide_from_end_visible:
  "hide_from_end k w = (Inr u, w') \<Longrightarrow> axes w = Some ax \<Longrightarrow>
     0 < k \<and> k \<le> length ax \<and> axes w' = Some (ax[length ax - k := (ax ! (length ax - k))\<lparr>visible := False\<rparr>])"
  by (auto simp: hide_from_end_def split: if_splits)

lemma subplots_visible: "map visible (subplots r c :: 'c panel list) = replicate (r * c) True"
  by (simp add: subplots_def)

subsection \<open>The loop over the columns\<close>

lemma cont_loop_capacity:
  "cont_loop fit idx cols w = (Inr u, w') \<Longrightarrow> idx \<le> length data_split_points \<Longrightarrow>
     idx + length cols \<le> length data_split_points"
proof (induction cols arbitrary: idx w)
  case Nil
  then show ?case by simp
next
  case (Cons f rest)
  from Cons.prems have lt: "idx < length data_split_points" by (auto split: if_splits)
  with Cons.prems obtain w2 where "cont_loop fit (Suc idx) rest w2 = (Inr u, w')"
    by (auto split: sum.splits prod.splits)
  from Cons.IH[OF this] lt show ?case by simp
qed

lemma cont_loop_append:
  "cont_loop fit idx (xs @ ys) w =
     (case cont_loop fit idx xs w of
        (Inl e, w1) \<Rightarrow> (Inl e, w1)
      | (Inr u, w1) \<Rightarrow> cont_loop fit (idx + length xs) ys w1)"
  by (induction xs arbitrary: idx w) (auto split: sum.splits prod.splits)

lemma length_data_split_points: "length data_split_points = 7"
  by (simp add: data_split_points_def)

subsection \<open>The table during the continuous routine\<close>

lemma map_of_setitem: "map_of (setitem df n c) = (map_of df)(n \<mapsto> c)"
  by (induction df n c rule: setitem.induct) (auto simp: fun_eq_iff)

lemma filter_setitem:
  "filter (\<lambda>(n, c). n \<noteq> g) (setitem df g c') = filter (\<lambda>(n, c). n \<noteq> g) df"
  by (induction df g c' rule: setitem.induct) auto

lemma map_of_drop:
  "map_of (filter (\<lambda>(n, c). n \<noteq> g) df) k = (if k = g then None else map_of df k)"
  by (induction df) auto

lemma mapE_Inl: "mapE f xs = Inl e \<Longrightarrow> \<exists>x \<in> set xs. f x = Inl e"
  by (induction xs) (auto split: sum.splits)

lemma mapE_Inr: "mapE f xs = Inr ys \<Longrightarrow> length ys = length xs \<and> (\<forall>i < length xs. f (xs ! i) = Inr (ys ! i))"
proof (induction xs arbitrary: ys)
  case Nil
  then show ?case by simp
next
  case (Cons x xs)
  then obtain y ys' where "f x = Inr y" "mapE f xs = Inr ys'" "ys = y # ys'"
    by (auto split: sum.splits)
  with Cons.IH[of ys'] show ?case by (auto simp: nth_Cons split: nat.splits)
qed

lemma mapE_total: "(\<And>x. x \<in> set xs \<Longrightarrow> f x = Inr (g x)) \<Longrightarrow> mapE f xs = Inr (map g xs)"
  by (induction xs) auto

lemma select_series_Inl:
  "select_series df key range_hue name = Inl e \<Longrightarrow>
     e = KeyError \<and> (map_of df key = None \<or> map_of df name = None)"
  by (auto simp: select_series_def getitem_def masked_column_def
           dest!: mapE_Inl split: option.splits sum.splits)

lemma group_name_neq_time: "f @ ''_group'' \<noteq> ''time''"
proof
  assume "f @ ''_group'' = ''time''"
  then have "last (f @ ''_group'') = last ''time''" by simp
  then show False by simp
qed

lemma group_name_neq_event: "f @ ''_group'' \<noteq> ''DEATH_EVENT''"
proof
  assume "f @ ''_group'' = ''DEATH_EVENT''"
  then have "last (f @ ''_group'') = last ''DEATH_EVENT''" by simp
  then show False by simp
qed

lemma cont_requests_Inr_frame:
  "cont_requests f sp w = (Inr reqs, w') \<Longrightarrow>
     frame w' = filter (\<lambda>(n, c). n \<noteq> f @ ''_group'') (frame w)"
  by (auto simp: cont_requests_def Let_def drop_column_def filter_setitem
           split: sum.splits if_splits)

lemma cont_requests_Inl_frame:
  assumes "cont_requests f sp w = (Inl e, w')"
  shows "frame w' = frame w \<or>
         (e = KeyError \<and> (map_of (frame w) ''time'' = None \<or> map_of (frame w) ''DEATH_EVENT'' = None)
          \<and> (\<exists>g. frame w' = setitem (frame w) (f @ ''_group'') (CatCol g)))"
  using assms
  by (auto simp: cont_requests_def Let_def drop_column_def map_of_setitem
                 group_name_neq_time[symmetric] group_name_neq_event[symmetric]
           dest!: select_series_Inl split: sum.splits if_splits)

lemma cont_km_fits_Inr_frame:
  "cont_km_fits fit f sp w = (Inr cs, w') \<Longrightarrow>
     frame w' = filter (\<lambda>(n, c). n \<noteq> f @ ''_group'') (frame w)"
  by (auto simp: cont_km_fits_def split: sum.splits prod.splits
           dest!: cont_requests_Inr_frame fit_all_frame)

lemma cont_km_fits_frame_safe:
  assumes "cont_km_fits fit f sp w = (r, w')"
    and "map_of (frame w) ''time'' \<noteq> None" and "map_of (frame w) ''DEATH_EVENT'' \<noteq> None"
  shows "set (frame w') \<subseteq> set (frame w)
       \<and> map_of (frame w') ''time'' \<noteq> None \<and> map_of (frame w') ''DEATH_EVENT'' \<noteq> None"
proof -
  obtain r1 w1 where c: "cont_requests f sp w = (r1, w1)" by (cases "cont_requests f sp w")
  have f1: "frame w' = frame w1"
    using assms(1) c by (auto simp: cont_km_fits_def split: sum.splits dest!: fit_all_frame)
  have "frame w1 = frame w \<or> frame w1 = filter (\<lambda>(n, c). n \<noteq> f @ ''_group'') (frame w)"
  proof (cases r1)
    case (Inl e)
    with c cont_requests_Inl_frame[of f sp w e w1] assms(2,3) show ?thesis by auto
  next
    case (Inr reqs)
    with c cont_requests_Inr_frame[of f sp w reqs w1] show ?thesis by simp
  qed
  with f1 assms(2,3) show ?thesis
    by (auto simp: map_of_drop group_name_neq_time[symmetric] group_name_neq_event[symmetric])
qed

lemma cont_loop_frame_safe:
  assumes "cont_loop fit idx cols w = (r, w')"
    and "map_of (frame w) ''time'' \<noteq> None" and "map_of (frame w) ''DEATH_EVENT'' \<noteq> None"
  shows "set (frame w') \<subseteq> set (frame w)"
  using assms
proof (induction cols arbitrary: idx w)
  case Nil
  then show ?case by simp
next
  case (Cons f rest)
  show ?case
  proof (cases "length data_split_points \<le> idx")
    case True
    with Cons.prems show ?thesis by simp
  next
    case False
    obtain r1 w1 where k: "cont_km_fits fit f (data_split_points ! idx) w = (r1, w1)"
      by (cases "cont_km_fits fit f (data_split_points ! idx) w")
    note s1 = cont_km_fits_frame_safe[OF k Cons.prems(2,3)]
    show ?thesis
    proof (cases r1)
      case (Inl e)
      with Cons.prems(1) k False s1 show ?thesis by auto
    next
      case (Inr fits)
      obtain r2 w2 where p: "plot_all f idx fits w1 = (r2, w2)" by (cases "plot_all f idx fits w1")
      then have f2: "frame w2 = frame w1" by (auto dest: plot_all_frame)
      show ?thesis
      proof (cases r2)
        case (Inl e)
        with Cons.prems(1) k \<open>r1 = Inr fits\<close> p False s1 f2 show ?thesis by auto
      next
        case (Inr u)
        with Cons.prems(1) k \<open>r1 = Inr fits\<close> p False
        have "cont_loop fit (Suc idx) rest w2 = (r, w')" by simp
        from Cons.IH[OF this] s1 f2 show ?thesis by auto
      qed
    qed
  qed
qed

lemma cont_loop_Inr_frame:
  "cont_loop fit idx cols w = (Inr u, w') \<Longrightarrow>
     frame w' = filter (\<lambda>(n, c). n \<notin> (\<lambda>f. f @ ''_group'') ` set cols) (frame w)"
proof (induction cols arbitrary: idx w)
  case Nil
  then show ?case by simp
next
  case (Cons f rest)
  from Cons.prems obtain fits w1 w2 where
    k: "cont_km_fits fit f (data_split_points ! idx) w = (Inr fits, w1)" and
    p: "plot_all f idx fits w1 = (Inr (), w2)" and
    l: "cont_loop fit (Suc idx) rest w2 = (Inr u, w')"
    by (auto split: sum.splits prod.splits if_splits)
  have "frame w2 = filter (\<lambda>(n, c). n \<noteq> f @ ''_group'') (frame w)"
    using cont_km_fits_Inr_frame[OF k] plot_all_frame[OF p] by simp
  with Cons.IH[OF l] show ?case by (auto intro: filter_cong)
qed

lemma hide_from_end_frame: "hide_from_end k w = (r, w') \<Longrightarrow> frame w' = frame w \<and> fit_log w' = fit_log w"
  by (auto simp: hide_from_end_def split: option.splits if_splits)

subsection \<open>What a normal return implies\<close>


lemma cut_numeric: "pd_cut c sp = Inr bins \<Longrightarrow> numeric c \<noteq> None"
  by (cases sp) (auto split: if_splits option.splits)

lemma cont_requests_Inr_numeric:
  "cont_requests f sp w = (Inr reqs, w') \<Longrightarrow> \<exists>c. map_of (frame w) f = Some c \<and> numeric c \<noteq> None"
  by (auto simp: cont_requests_def getitem_def Let_def split: sum.splits option.splits dest: cut_numeric)

lemma fit_all_Inr:
  "fit_all fit rs w = (Inr cs, w') \<Longrightarrow>
     fit_log w' = fit_log w @ rs \<and> map fit rs = map Inr cs"
proof (induction rs arbitrary: w cs)
  case Nil
  then show ?case by simp
next
  case (Cons r rs)
  from Cons.prems obtain c cs' where
    c: "fit r = Inr c" and
    rest: "fit_all fit rs (w\<lparr>fit_log := fit_log w @ [r]\<rparr>) = (Inr cs', w')" and
    cs: "cs = c # cs'"
    by (auto simp: Let_def split: sum.splits prod.splits)
  from Cons.IH[OF rest] c cs show ?case by simp
qed

lemma cont_km_fits_Inr_log:
  assumes "cont_km_fits fit f sp w = (Inr cs, w')"
  shows "\<exists>new. fit_log w' = fit_log w @ new \<and> map fit new = map Inr cs"
proof -
  from assms obtain reqs w1 where
    r: "cont_requests f sp w = (Inr reqs, w1)" and a: "fit_all fit reqs w1 = (Inr cs, w')"
    by (auto simp: cont_km_fits_def split: sum.splits prod.splits)
  from cont_requests_axes[OF r] fit_all_Inr[OF a] show ?thesis by auto
qed

lemma cat_km_fits_Inr_log:
  assumes "cat_km_fits fit f w = (Inr cs, w')"
  shows "\<exists>new. fit_log w' = fit_log w @ new \<and> map fit new = map Inr cs"
  using assms by (auto simp: cat_km_fits_def split: sum.splits dest!: fit_all_Inr)

lemma map_fit_Inr: "map fit new = map Inr cs \<Longrightarrow> \<forall>r \<in> set new. \<exists>c. fit r = Inr c"
  by (induction new arbitrary: cs) auto

lemma cont_loop_Inr_ok:
  "cont_loop fit idx cols w = (Inr u, w') \<Longrightarrow>
     (\<forall>f \<in> set cols. \<exists>c. map_of (frame w) f = Some c \<and> numeric c \<noteq> None)
     \<and> (\<exists>new. fit_log w' = fit_log w @ new \<and> (\<forall>r \<in> set new. \<exists>c. fit r = Inr c))"
proof (induction cols arbitrary: idx w)
  case Nil
  then show ?case by simp
next
  case (Cons f rest)
  from Cons.prems obtain fits w1 w2 where
    k: "cont_km_fits fit f (data_split_points ! idx) w = (Inr fits, w1)" and
    p: "plot_all f idx fits w1 = (Inr (), w2)" and
    l: "cont_loop fit (Suc idx) rest w2 = (Inr u, w')"
    by (auto split: sum.splits prod.splits if_splits)
  from k obtain reqs w0 where r: "cont_requests f (data_split_points ! idx) w = (Inr reqs, w0)"
    by (auto simp: cont_km_fits_def split: sum.splits prod.splits)
  have fr: "frame w2 = filter (\<lambda>(n, c). n \<noteq> f @ ''_group'') (frame w)"
    using cont_km_fits_Inr_frame[OF k] plot_all_frame[OF p] by simp
  from cont_km_fits_Inr_log[OF k] obtain new1 where
    n1: "fit_log w1 = fit_log w @ new1" "\<forall>r \<in> set new1. \<exists>c. fit r = Inr c"
    by (auto dest: map_fit_Inr)
  from Cons.IH[OF l] obtain new2 where
    cols: "\<forall>g \<in> set rest. \<exists>c. map_of (frame w2) g = Some c \<and> numeric c \<noteq> None" and
    n2: "fit_log w' = fit_log w2 @ new2" "\<forall>r \<in> set new2. \<exists>c. fit r = Inr c"
    by auto
  have "\<forall>g \<in> set rest. \<exists>c. map_of (frame w) g = Some c \<and> numeric c \<noteq> None"
    using cols fr by (auto simp: map_of_drop split: if_splits)
  moreover have "fit_log w' = fit_log w @ (new1 @ new2)"
    using n1(1) n2(1) plot_all_frame[OF p] by simp
  moreover have "\<forall>r \<in> set (new1 @ new2). \<exists>c. fit r = Inr c"
    using n1(2) n2(2) by auto
  ultimately show ?case using cont_requests_Inr_numeric[OF r] by auto
qed

lemma cat_loop_Inr_ok:
  "cat_loop fit idx cols w = (Inr u, w') \<Longrightarrow>
     \<exists>new. fit_log w' = fit_log w @ new \<and> (\<forall>r \<in> set new. \<exists>c. fit r = Inr c)"
proof (induction cols arbitrary: idx w)
  case Nil
  then show ?case by simp
next
  case (Cons f rest)
  from Cons.prems obtain fits w1 w2 where
    k: "cat_km_fits fit f w = (Inr fits, w1)" and
    p: "plot_all f idx fits w1 = (Inr (), w2)" and
    l: "cat_loop fit (Suc idx) rest w2 = (Inr u, w')"
    by (auto split: sum.splits prod.splits)
  from cat_km_fits_Inr_log[OF k] obtain new1 where
    n1: "fit_log w1 = fit_log w @ new1" "\<forall>r \<in> set new1. \<exists>c. fit r = Inr c"
    by (auto dest: map_fit_Inr)
  from Cons.IH[OF l] obtain new2 where
    n2: "fit_log w' = fit_log w2 @ new2" "\<forall>r \<in> set new2. \<exists>c. fit r = Inr c"
    by auto
  have "fit_log w' = fit_log w @ (new1 @ new2)"
    using n1(1) n2(1) plot_all_frame[OF p] by simp
  moreover have "\<forall>r \<in> set (new1 @ new2). \<exists>c. fit r = Inr c"
    using n1(2) n2(2) by auto
  ultimately show ?case by blast
qed

subsection \<open>The curves on each panel\<close>


lemma cont_requests_fst_frame:
  "frame w = frame v \<Longrightarrow> fst (cont_requests f sp w) = fst (cont_requests f sp v)"
  by (auto simp: cont_requests_def Let_def split: sum.splits)



subsection \<open>Distinct values and the rows they select\<close>


lemma sorted_remdups_adj_distinct: "sorted xs \<Longrightarrow> distinct (remdups_adj xs)"
proof (induction xs rule: remdups_adj.induct)
  case (3 x y xs)
  show ?case
  proof (cases "x = y")
    case True
    with 3 show ?thesis by simp
  next
    case False
    from "3.prems" have "x \<le> y" and "\<forall>z \<in> set xs. y \<le> z" and "sorted (y # xs)" by auto
    with False have "x \<notin> set (y # xs)" by auto
    with False "3.IH"(2) \<open>sorted (y # xs)\<close> show ?thesis by simp
  qed
qed simp_all

lemma sorted_key_remdups_adj_distinct:
  assumes "inj k" and "sorted (map k xs)"
  shows "distinct (remdups_adj xs)"
proof -
  have "distinct (remdups_adj (map k xs))" using assms(2) by (rule sorted_remdups_adj_distinct)
  then have "distinct (map k (remdups_adj xs))" by (simp add: remdups_adj_map_injective assms(1))
  then show ?thesis by (simp add: distinct_map)
qed

lemma inj_interval_key: "inj interval_key"
  by (rule injI) (auto simp: interval_key_def intro: interval.expand)

lemma unique_intervals_distinct: "distinct (remdups_adj (sort_key interval_key xs))"
  by (rule sorted_key_remdups_adj_distinct[OF inj_interval_key]) simp

lemma np_unique_values:
  assumes "NaN \<notin> set (cells c)"
  shows "\<exists>vs. np_unique c = Inr vs \<and> distinct vs \<and> set vs = set (cells c)"
proof (cases c)
  case (IntCol xs)
  then show ?thesis by (simp add: distinct_map sorted_remdups_adj_distinct inj_on_def)
next
  case (FloatCol xs)
  then show ?thesis by (simp add: distinct_map sorted_remdups_adj_distinct inj_on_def)
next
  case (StrCol xs)
  then show ?thesis by (simp add: distinct_map sorted_remdups_adj_distinct inj_on_def)
next
  case (CatCol xs)
  with assms have some: "\<forall>x \<in> set xs. x \<noteq> None" by (auto split: option.splits)
  then have "(\<lambda>x. case x of None \<Rightarrow> NaN | Some i \<Rightarrow> IntervalV i) ` set xs = IntervalV ` the ` set xs"
    by (force split: option.splits)
  with CatCol some show ?thesis
    by (simp add: distinct_map unique_intervals_distinct image_image inj_on_def)
qed

lemma select_rows_eq_mask:
  "v \<noteq> NaN \<Longrightarrow>
     select_rows (eq_mask c v) ts = map snd (filter (\<lambda>(x, y). x = v) (zip (cells c) ts))"
proof -
  assume v: "v \<noteq> NaN"
  have "zip (map (\<lambda>x. elem_eq x v) (cells c)) ts = map (\<lambda>(x, y). (elem_eq x v, y)) (zip (cells c) ts)"
    by (simp add: zip_map1)
  then have "select_rows (eq_mask c v) ts
      = map snd (filter fst (map (\<lambda>(x, y). (elem_eq x v, y)) (zip (cells c) ts)))"
    by (simp add: select_rows_def eq_mask_def)
  also have "\<dots> = map snd (filter (\<lambda>(x, y). x = v) (zip (cells c) ts))"
  proof -
    have "filter (\<lambda>p. elem_eq (fst p) v) (zip (cells c) ts) = filter (\<lambda>(x, y). x = v) (zip (cells c) ts)"
      using v by (intro filter_cong) (auto simp: elem_eq_def)
    then show ?thesis by (simp add: filter_map comp_def case_prod_beta)
  qed
  finally show ?thesis .
qed

lemma length_filter_zip:
  "length xs = length ys \<Longrightarrow>
     length (filter (\<lambda>(x, y). x = v) (zip xs ys)) = count_list xs v"
  by (induction xs ys rule: list_induct2) auto

lemma fit_requests_map:
  "fit_requests (map fx vs) (map fy vs) (map fl vs)
     = map (\<lambda>v. \<lparr>durations = fx v, event_observed = fy v, label = fl v\<rparr>) vs"
  by (rule nth_equalityI) (simp_all add: fit_requests_def nth_enumerate_eq)

lemma select_series_total:
  assumes "map_of df key = Some c" and "map_of df name = Some t"
  shows "select_series df key vs name = Inr (map (\<lambda>v. select_rows (eq_mask c v) (cells t)) vs)"
  unfolding select_series_def
  by (rule mapE_total) (simp add: getitem_def masked_column_def assms)

lemma fit_all_total:
  "fit_all (\<lambda>r. Inr (g r)) rs w = (Inr (map g rs), w\<lparr>fit_log := fit_log w @ rs\<rparr>)"
  by (induction rs arbitrary: w) (simp_all add: Let_def)

subsection \<open>Labels of the bins\<close>


lemma digit_char_digit: "d < 10 \<Longrightarrow> digit_char d \<in> set ''0123456789''"
  unfolding digit_char_def by (rule nth_mem) simp

lemma str_nat_avoids:
  assumes "\<And>d. d < 10 \<Longrightarrow> digit_char d \<noteq> c"
  shows "c \<notin> set (str_nat n)"
proof (induction n rule: str_nat.induct)
  case (1 n)
  show ?case
  proof (cases "n < 10")
    case True
    then have "nat n < 10" by simp
    from assms[OF this] True show ?thesis by (subst str_nat.simps) simp
  next
    case False
    have "nat (n mod 10) < 10" by simp
    from assms[OF this] 1[OF False] False show ?thesis
      by (subst str_nat.simps) simp
  qed
qed

lemma frac_digits_avoids:
  assumes "\<And>d. d < 10 \<Longrightarrow> digit_char d \<noteq> c"
  shows "0 \<le> q \<Longrightarrow> q < 1 \<Longrightarrow> c \<notin> set (frac_digits fuel q)"
proof (induction fuel arbitrary: q)
  case 0
  then show ?case by simp
next
  case (Suc fuel)
  let ?d = "nat \<lfloor>10 * q\<rfloor>"
  from Suc.prems have nonneg: "0 \<le> \<lfloor>10 * q\<rfloor>" by simp
  from Suc.prems have "10 * q < 10" by simp
  then have "\<lfloor>10 * q\<rfloor> < 10" using floor_less_iff[of "10 * q" 10] by simp
  with nonneg have d: "?d < 10" by linarith
  have eq: "(of_nat ?d :: rat) = of_int \<lfloor>10 * q\<rfloor>" using nonneg by simp
  have lo: "0 \<le> 10 * q - of_nat ?d" unfolding eq by simp
  have hi: "10 * q - of_nat ?d < 1" unfolding eq by linarith
  from Suc.IH[OF lo hi] assms[OF d] show ?case by (simp add: Let_def)
qed

lemma str_float_avoids:
  assumes dig: "\<And>d. d < 10 \<Longrightarrow> digit_char d \<noteq> c"
    and "c \<noteq> CHR ''.''" and "c \<noteq> CHR ''-''"
  shows "c \<notin> set (str_float r)"
proof -
  let ?a = "\<bar>r\<bar>"
  let ?ip = "\<lfloor>?a\<rfloor>"
  have lo: "0 \<le> ?a - of_int ?ip" by linarith
  have hi: "?a - of_int ?ip < 1" by linarith
  have z: "c \<noteq> CHR ''0''" using dig[of 0] by (simp add: digit_char_def)
  have n: "c \<notin> set (str_nat ?ip)" using dig by (rule str_nat_avoids)
  have f: "c \<notin> set (frac_digits 17 (?a - of_int ?ip))"
    using dig lo hi by (rule frac_digits_avoids)
  show ?thesis
    unfolding str_float_def Let_def using n f z assms(2,3) by simp
qed

lemma str_float_no_comma: "CHR '','' \<notin> set (str_float r)"
proof (rule str_float_avoids)
  fix d :: nat assume "d < 10"
  from digit_char_digit[OF this] show "digit_char d \<noteq> CHR '',''" by auto
qed simp_all

lemma str_float_no_bracket: "CHR '']'' \<notin> set (str_float r)"
proof (rule str_float_avoids)
  fix d :: nat assume "d < 10"
  from digit_char_digit[OF this] show "digit_char d \<noteq> CHR '']''" by auto
qed simp_all

lemma str_replace_append: "str_replace c t (a @ b) = str_replace c t a @ str_replace c t b"
  by (simp add: str_replace_def)

lemma str_replace_Cons:
  "str_replace c t (x # s) = (if x = c then t else [x]) @ str_replace c t s"
  by (simp add: str_replace_def)

lemma str_replace_Nil: "str_replace c t [] = []"
  by (simp add: str_replace_def)

lemma str_replace_absent: "c \<notin> set s \<Longrightarrow> str_replace c t s = s"
  by (induction s) (auto simp: str_replace_def)

lemma fit_label_of_interval:
  "fit_label_of (IntervalV (Interval l u)) = ''('' @ str_float l @ '' - '' @ str_float u @ '')''"
  by (simp add: fit_label_of_def str_replace_append str_replace_Cons str_replace_Nil
                str_replace_absent str_float_no_bracket str_float_no_comma)

lemma fit_label_of_nan: "fit_label_of NaN = ''nan''"
  by (simp add: fit_label_of_def str_replace_def)

lemma label_fit_requests:
  "length X = length L \<Longrightarrow> length Y = length L \<Longrightarrow> map label (fit_requests X Y L) = L"
  by (rule nth_equalityI) (simp_all add: fit_requests_def nth_enumerate_eq)

lemma select_series_length: "select_series df key vs name = Inr X \<Longrightarrow> length X = length vs"
  by (auto simp: select_series_def dest: mapE_Inr)

lemma cont_requests_Inr_parts:
  assumes "cont_requests feature split_points w = (Inr reqs, w')"
  shows "\<exists>c bins range_hue X Y.
           map_of (frame w) feature = Some c \<and> pd_cut c split_points = Inr bins
         \<and> np_unique (CatCol bins) = Inr range_hue
         \<and> select_series (setitem (frame w) (feature @ ''_group'') (CatCol bins))
               (feature @ ''_group'') range_hue ''time'' = Inr X
         \<and> select_series (setitem (frame w) (feature @ ''_group'') (CatCol bins))
               (feature @ ''_group'') range_hue ''DEATH_EVENT'' = Inr Y
         \<and> reqs = fit_requests X Y (map fit_label_of range_hue)"
proof -
  let ?g = "feature @ ''_group''"
  obtain c where c: "getitem (frame w) feature = Inr c"
    using assms by (cases "getitem (frame w) feature") (simp_all add: cont_requests_def)
  obtain bins where b: "pd_cut c split_points = Inr bins"
    using assms c by (cases "pd_cut c split_points") (simp_all add: cont_requests_def)
  obtain range_hue where u: "np_unique (CatCol bins) = Inr range_hue"
    using assms c b by (cases "np_unique (CatCol bins)") (simp_all add: cont_requests_def)
  let ?df = "setitem (frame w) ?g (CatCol bins)"
  obtain X where X: "select_series ?df ?g range_hue ''time'' = Inr X"
    using assms c b u
    by (cases "select_series ?df ?g range_hue ''time''") (simp_all add: cont_requests_def Let_def)
  obtain Y where Y: "select_series ?df ?g range_hue ''DEATH_EVENT'' = Inr Y"
    using assms c b u X
    by (cases "select_series ?df ?g range_hue ''DEATH_EVENT''")
       (simp_all add: cont_requests_def Let_def)
  have "reqs = fit_requests X Y (map fit_label_of range_hue)"
    using assms c b u X Y
    by (cases "drop_column ?df ?g") (simp_all add: cont_requests_def Let_def)
  moreover from c have "map_of (frame w) feature = Some c"
    by (simp add: getitem_def split: option.splits)
  ultimately show ?thesis using b u X Y by blast
qed

lemma cont_requests_labels:
  assumes "cont_requests feature split_points w = (Inr reqs, w')"
    and "map_of (frame w) feature = Some c"
    and "pd_cut c split_points = Inr bins"
  shows "\<exists>range_hue. np_unique (CatCol bins) = Inr range_hue
           \<and> map label reqs = map fit_label_of range_hue"
proof -
  from cont_requests_Inr_parts[OF assms(1)] assms(2,3) obtain range_hue X Y where
    u: "np_unique (CatCol bins) = Inr range_hue" and
    X: "select_series (setitem (frame w) (feature @ ''_group'') (CatCol bins))
               (feature @ ''_group'') range_hue ''time'' = Inr X" and
    Y: "select_series (setitem (frame w) (feature @ ''_group'') (CatCol bins))
               (feature @ ''_group'') range_hue ''DEATH_EVENT'' = Inr Y" and
    r: "reqs = fit_requests X Y (map fit_label_of range_hue)"
    by auto
  from select_series_length[OF X] select_series_length[OF Y] r
  have "map label reqs = map fit_label_of range_hue" by (simp add: label_fit_requests)
  with u show ?thesis by blast
qed

lemma np_unique_cat_cases:
  assumes "np_unique (CatCol bins) = Inr vs"
  shows "(None \<notin> set bins \<and> vs = map IntervalV (remdups_adj (sort_key interval_key (map the bins))))
       \<or> (bins \<noteq> [] \<and> (\<forall>x \<in> set bins. x = None) \<and> vs = map (\<lambda>x. NaN) bins)"
proof (cases "\<forall>x \<in> set bins. x \<noteq> None")
  case True
  with assms show ?thesis by auto
next
  case False
  then have "bins \<noteq> []" by auto
  with False assms show ?thesis by (auto split: if_splits)
qed


lemma unique_intervals_sorted: "sorted (map interval_key (remdups_adj (sort_key interval_key xs)))"
proof -
  have "sorted (remdups_adj (map interval_key (sort_key interval_key xs)))" by simp
  then show ?thesis by (simp add: remdups_adj_map_injective inj_interval_key)
qed

lemma unique_intervals_determined:
  assumes "set xs = set ys" and "sorted (map interval_key ys)" and "distinct ys"
  shows "remdups_adj (sort_key interval_key xs) = ys"
proof -
  let ?zs = "remdups_adj (sort_key interval_key xs)"
  have "map interval_key ?zs = map interval_key ys"
  proof (rule sorted_distinct_set_unique)
    show "sorted (map interval_key ?zs)" by (rule unique_intervals_sorted)
    show "distinct (map interval_key ?zs)"
      using unique_intervals_distinct[of xs] inj_interval_key
      by (simp add: distinct_map inj_on_def inj_def)
    show "sorted (map interval_key ys)" by fact
    show "distinct (map interval_key ys)"
      using assms(3) inj_interval_key by (simp add: distinct_map inj_on_def inj_def)
    show "set (map interval_key ?zs) = set (map interval_key ys)" using assms(1) by simp
  qed
  then show ?thesis by (rule map_injective) (rule inj_interval_key)
qed

lemma format_labels_age: "format_labels [30, 60, 80, 100] = [30, 60, 80, 100]"
  by code_simp

lemma assign_bin_age:
  "assign_bin [30, 60, 80, 100] [30, 60, 80, 100] v =
     (if v \<le> 30 then None
      else if v \<le> 60 then Some (Interval 30 60)
      else if v \<le> 80 then Some (Interval 60 80)
      else if v \<le> 100 then Some (Interval 80 100)
      else None)"
  by (simp add: assign_bin_def searchsorted_def)

lemma cut_age:
  "numeric c = Some xs \<Longrightarrow>
     pd_cut c (Edges [30, 60, 80, 100]) = Inr (map (assign_bin [30, 60, 80, 100] [30, 60, 80, 100]) xs)"
  by (simp add: bins_to_cuts_def format_labels_age)

subsection \<open>Subgroups and bins\<close>





























subsection \<open>The size of the figure\<close>


lemma hide_from_end_length:
  "hide_from_end k w = (r, w') \<Longrightarrow> axes w = Some ax \<Longrightarrow>
     \<exists>ax'. axes w' = Some ax' \<and> length ax' = length ax"
  by (auto simp: hide_from_end_def split: if_splits)

lemma length_visible: "map visible ax' = map visible ax \<Longrightarrow> length ax' = length ax"
  by (metis length_map)

lemma categorical_figure_size:
  assumes "\<forall>c \<in> set cols. map_of (frame w) c \<noteq> None"
  shows "\<exists>ax. axes (snd (PlotKaplanMeierEstimatesForCategoricalVariables fit cols w)) = Some ax
           \<and> length ax = 6"
proof -
  let ?w1 = "w\<lparr>axes := Some (subplots 2 3)\<rparr>"
  from assms obtain d where d: "loc_columns (frame w) cols = Inr d"
    by (auto simp: loc_columns_def)
  obtain r w2 where l: "cat_loop fit 0 cols ?w1 = (r, w2)" by (cases "cat_loop fit 0 cols ?w1")
  from cat_loop_visible[OF l, of "subplots 2 3"] obtain ax2 where
    a2: "axes w2 = Some ax2" and v2: "map visible ax2 = map visible (subplots 2 3 :: 'a panel list)"
    by auto
  from length_visible[OF v2] have len2: "length ax2 = 6" by (simp add: subplots_def)
  obtain r3 w3 where h: "hide_from_end 1 w2 = (r3, w3)" by (cases "hide_from_end 1 w2")
  from hide_from_end_length[OF h a2] len2 obtain ax3 where
    a3: "axes w3 = Some ax3" "length ax3 = 6" by auto
  show ?thesis
    using d l h a2 len2 a3
    by (auto simp: PlotKaplanMeierEstimatesForCategoricalVariables_def Let_def
             split: sum.splits prod.splits)
qed

lemma continuous_figure_size:
  assumes "\<forall>c \<in> set cols. map_of (frame w) c \<noteq> None"
  shows "\<exists>ax. axes (snd (PlotKaplanMeierEstimatesForContinuousVariables fit cols w)) = Some ax
           \<and> length ax = 9"
proof -
  let ?w1 = "w\<lparr>axes := Some (subplots 3 3)\<rparr>"
  from assms obtain d where d: "loc_columns (frame w) cols = Inr d"
    by (auto simp: loc_columns_def)
  obtain r w2 where l: "cont_loop fit 0 cols ?w1 = (r, w2)" by (cases "cont_loop fit 0 cols ?w1")
  from cont_loop_visible[OF l, of "subplots 3 3"] obtain ax2 where
    a2: "axes w2 = Some ax2" and v2: "map visible ax2 = map visible (subplots 3 3 :: 'a panel list)"
    by auto
  from length_visible[OF v2] have len2: "length ax2 = 9" by (simp add: subplots_def)
  obtain r3 w3 where h1: "hide_from_end 1 w2 = (r3, w3)" by (cases "hide_from_end 1 w2")
  from hide_from_end_length[OF h1 a2] len2 obtain ax3 where
    a3: "axes w3 = Some ax3" "length ax3 = 9" by auto
  obtain r4 w4 where h2: "hide_from_end 2 w3 = (r4, w4)" by (cases "hide_from_end 2 w3")
  from hide_from_end_length[OF h2 a3(1)] a3(2) obtain ax4 where
    a4: "axes w4 = Some ax4" "length ax4 = 9" by auto
  show ?thesis
    using d l h1 h2 a2 len2 a3 a4
    by (auto simp: PlotKaplanMeierEstimatesForContinuousVariables_def Let_def
             split: sum.splits prod.splits)
qed

subsection \<open>A loop whose columns are all binned runs to its end\<close>

text \<open>With an estimator that does not raise, a grid with a panel for every bin
  specification and no column named like a scratch column, the loop of the continuous
  routine succeeds as soon as every column is binned and selected without an
  exception.\<close>

lemma plot_all_in_grid:
  "axes w = Some ax \<Longrightarrow> idx < length ax \<Longrightarrow>
     \<exists>w' ax'. plot_all f idx cs w = (Inr (), w') \<and> axes w' = Some ax'
        \<and> length ax' = length ax \<and> frame w' = frame w"
proof (induction cs arbitrary: w ax)
  case Nil
  then show ?case by simp
next
  case (Cons x xs)
  let ?ax = "ax[idx := (ax ! idx)\<lparr>curves := curves (ax ! idx) @ [x], title := Some f\<rparr>]"
  from Cons.IH[of "w\<lparr>axes := Some ?ax\<rparr>" ?ax] Cons.prems show ?case by auto
qed

lemma drop_absent_column:
  "map_of df g = None \<Longrightarrow> filter (\<lambda>(n, c). n \<noteq> g) df = df"
  by (induction df) (auto split: if_splits)

lemma cont_loop_succeeds:
  assumes "\<forall>i < length cols. \<exists>reqs.
             fst (cont_requests (cols ! i) (data_split_points ! (idx + i)) w) = Inr reqs"
    and "\<forall>f \<in> set cols. map_of (frame w) (f @ ''_group'') = None"
    and "idx + length cols \<le> length data_split_points"
    and "axes w = Some ax" and "length data_split_points \<le> length ax"
  shows "fst (cont_loop (\<lambda>r. Inr (g r)) idx cols w) = Inr ()"
  using assms
proof (induction cols arbitrary: idx w ax)
  case Nil
  then show ?case by simp
next
  case (Cons f rest)
  from Cons.prems(3) have lt: "idx < length data_split_points" by simp
  from Cons.prems(1) obtain reqs where
    "fst (cont_requests f (data_split_points ! idx) w) = Inr reqs" by force
  then obtain w1 where r: "cont_requests f (data_split_points ! idx) w = (Inr reqs, w1)"
    by (cases "cont_requests f (data_split_points ! idx) w") auto
  have fr1: "frame w1 = frame w"
    using cont_requests_Inr_frame[OF r] Cons.prems(2) by (simp add: drop_absent_column)
  have ax1: "axes w1 = Some ax" using cont_requests_axes[OF r] Cons.prems(4) by simp
  let ?w1 = "w1\<lparr>fit_log := fit_log w1 @ reqs\<rparr>"
  have k: "cont_km_fits (\<lambda>r. Inr (g r)) f (data_split_points ! idx) w = (Inr (map g reqs), ?w1)"
    by (simp add: cont_km_fits_def r fit_all_total)
  have "idx < length ax" using lt Cons.prems(5) by simp
  with plot_all_in_grid[of ?w1 ax idx f "map g reqs"] ax1 obtain w2 ax2 where
    p: "plot_all f idx (map g reqs) ?w1 = (Inr (), w2)" and
    ax2: "axes w2 = Some ax2" and len2: "length ax2 = length ax" and
    fr2: "frame w2 = frame ?w1"
    by auto
  have fr: "frame w2 = frame w" using fr1 fr2 by simp
  have step: "cont_loop (\<lambda>r. Inr (g r)) idx (f # rest) w
      = cont_loop (\<lambda>r. Inr (g r)) (Suc idx) rest w2"
    using lt k p by simp
  have one: "\<forall>i < length rest. \<exists>reqs.
             fst (cont_requests (rest ! i) (data_split_points ! (Suc idx + i)) w2) = Inr reqs"
  proof (intro allI impI)
    fix i assume "i < length rest"
    with Cons.prems(1) obtain reqs' where
      "fst (cont_requests ((f # rest) ! Suc i) (data_split_points ! (idx + Suc i)) w) = Inr reqs'"
      by force
    with cont_requests_fst_frame[OF fr, of "rest ! i" "data_split_points ! (Suc idx + i)"]
    show "\<exists>reqs. fst (cont_requests (rest ! i) (data_split_points ! (Suc idx + i)) w2) = Inr reqs"
      by simp
  qed
  have two: "\<forall>f \<in> set rest. map_of (frame w2) (f @ ''_group'') = None"
    using Cons.prems(2) fr by simp
  have three: "Suc idx + length rest \<le> length data_split_points" using Cons.prems(3) by simp
  have four: "length data_split_points \<le> length ax2" using Cons.prems(5) len2 by simp
  from Cons.IH[OF one two three ax2 four] step show ?case by simp
qed

section \<open>The claims\<close>

subsection \<open>C1: one curve per distinct value\<close>

text \<open>
  C1. For a table whose columns have the same number of rows and a categorical column
  without missing values, \<^verbatim>\<open>km_fits\<close> of the categorical routine makes one estimator
  call per distinct value of the column, \<open>k\<close> calls for \<open>k\<close> distinct values, in the order
  of \<^verbatim>\<open>np.unique\<close>. The call for the value \<open>v\<close> is given the \<^verbatim>\<open>time\<close> entries and the
  \<^verbatim>\<open>DEATH_EVENT\<close> entries of exactly the rows where the column equals \<open>v\<close> (as many as
  \<open>v\<close> occurs in the column) and the label \<^verbatim>\<open>column + ": " + str(v)\<close>. With an estimator
  that accepts every call, the result is the list of the \<open>k\<close> fitted curves.
\<close>

theorem one_curve_per_value:
  assumes wf: "wf_frame n (frame w)"
    and c: "map_of (frame w) feature = Some c"
    and t: "map_of (frame w) ''time'' = Some t"
    and d: "map_of (frame w) ''DEATH_EVENT'' = Some e"
    and nn: "NaN \<notin> set (cells c)"
  shows "\<exists>vs. np_unique c = Inr vs \<and> distinct vs \<and> set vs = set (cells c)
     \<and> length vs = card (set (cells c))
     \<and> cat_km_fits (\<lambda>r. Inr (g r)) feature w
         = (Inr (map (\<lambda>v. g \<lparr>durations = map snd (filter (\<lambda>(x, y). x = v) (zip (cells c) (cells t))),
                                event_observed = map snd (filter (\<lambda>(x, y). x = v) (zip (cells c) (cells e))),
                                label = feature @ '': '' @ str_cell v\<rparr>) vs),
            w\<lparr>fit_log := fit_log w @
                 map (\<lambda>v. \<lparr>durations = map snd (filter (\<lambda>(x, y). x = v) (zip (cells c) (cells t))),
                             event_observed = map snd (filter (\<lambda>(x, y). x = v) (zip (cells c) (cells e))),
                             label = feature @ '': '' @ str_cell v\<rparr>) vs\<rparr>)
     \<and> (\<forall>v \<in> set vs.
           length (filter (\<lambda>(x, y). x = v) (zip (cells c) (cells t))) = count_list (cells c) v
         \<and> length (filter (\<lambda>(x, y). x = v) (zip (cells c) (cells e))) = count_list (cells c) v)"
proof -
  from np_unique_values[OF nn] obtain vs where
    u: "np_unique c = Inr vs" and dist: "distinct vs" and set: "set vs = set (cells c)" by blast
  have len: "length vs = card (set (cells c))" using dist set by (metis distinct_card)
  have nv: "\<forall>v \<in> set vs. v \<noteq> NaN" using nn set by auto
  let ?X = "\<lambda>v. map snd (filter (\<lambda>(x, y). x = v) (zip (cells c) (cells t)))"
  let ?Y = "\<lambda>v. map snd (filter (\<lambda>(x, y). x = v) (zip (cells c) (cells e)))"
  let ?L = "\<lambda>v. feature @ '': '' @ str_cell v"
  have X: "select_series (frame w) feature vs ''time'' = Inr (map ?X vs)"
    using select_series_total[OF c t, of vs] nv by (simp add: select_rows_eq_mask cong: map_cong)
  have Y: "select_series (frame w) feature vs ''DEATH_EVENT'' = Inr (map ?Y vs)"
    using select_series_total[OF c d, of vs] nv by (simp add: select_rows_eq_mask cong: map_cong)
  have req: "cat_requests (frame w) feature
      = Inr (map (\<lambda>v. \<lparr>durations = ?X v, event_observed = ?Y v, label = ?L v\<rparr>) vs)"
    using c u X Y by (simp add: cat_requests_def getitem_def fit_requests_map)
  have fits: "cat_km_fits (\<lambda>r. Inr (g r)) feature w
      = (Inr (map (\<lambda>v. g \<lparr>durations = ?X v, event_observed = ?Y v, label = ?L v\<rparr>) vs),
         w\<lparr>fit_log := fit_log w @ map (\<lambda>v. \<lparr>durations = ?X v, event_observed = ?Y v, label = ?L v\<rparr>) vs\<rparr>)"
    by (simp add: cat_km_fits_def req fit_all_total comp_def)
  have lc: "length (cells c) = n" and lt: "length (cells t) = n" and le: "length (cells e) = n"
    using wf c t d by (auto simp: wf_frame_def n_rows_def dest!: map_of_SomeD)
  have cnt: "\<forall>v \<in> set vs.
           length (filter (\<lambda>(x, y). x = v) (zip (cells c) (cells t))) = count_list (cells c) v
         \<and> length (filter (\<lambda>(x, y). x = v) (zip (cells c) (cells e))) = count_list (cells c) v"
    using lc lt le by (simp add: length_filter_zip)
  from u dist set len fits cnt show ?thesis by blast
qed

text \<open>The scenario of the specification: a column \<^verbatim>\<open>sex\<close> with six rows of 0 and four
  rows of 1 gives two curves, labelled \<^verbatim>\<open>sex: 0\<close> and \<^verbatim>\<open>sex: 1\<close>, fitted on six and on
  four pairs.\<close>

theorem one_curve_per_value_witness:
  "wf_frame 10 (frame (world0 sex_frame))
   \<and> map_of (frame (world0 sex_frame)) ''sex'' = Some (IntCol [0, 1, 0, 0, 1, 0, 1, 0, 1, 0])
   \<and> map_of (frame (world0 sex_frame)) ''time'' = Some (IntCol [4, 6, 7, 7, 8, 8, 10, 10, 10, 11])
   \<and> map_of (frame (world0 sex_frame)) ''DEATH_EVENT'' = Some (IntCol [1, 1, 1, 1, 1, 1, 1, 1, 1, 0])
   \<and> NaN \<notin> set (cells (IntCol [0, 1, 0, 0, 1, 0, 1, 0, 1, 0]))
   \<and> card (set (cells (IntCol [0, 1, 0, 0, 1, 0, 1, 0, 1, 0]))) = 2
   \<and> count_list (cells (IntCol [0, 1, 0, 0, 1, 0, 1, 0, 1, 0])) (IntV 0) = 6
   \<and> count_list (cells (IntCol [0, 1, 0, 0, 1, 0, 1, 0, 1, 0])) (IntV 1) = 4
   \<and> fst (cat_km_fits recording_fit ''sex'' (world0 sex_frame))
       = Inr [\<lparr>durations = [IntV 4, IntV 7, IntV 7, IntV 8, IntV 10, IntV 11],
               event_observed = [IntV 1, IntV 1, IntV 1, IntV 1, IntV 1, IntV 0],
               label = ''sex: 0''\<rparr>,
              \<lparr>durations = [IntV 6, IntV 8, IntV 10, IntV 10],
               event_observed = [IntV 1, IntV 1, IntV 1, IntV 1],
               label = ''sex: 1''\<rparr>]"
proof -
  let ?c = "IntCol [0, 1, 0, 0, 1, 0, 1, 0, 1, 0]"
  let ?t = "IntCol [4, 6, 7, 7, 8, 8, 10, 10, 10, 11]"
  let ?e = "IntCol [1, 1, 1, 1, 1, 1, 1, 1, 1, 0]"
  have wf: "wf_frame 10 (frame (world0 sex_frame))"
    by (simp add: wf_frame_def world0_def sex_frame_def n_rows_def)
  have c: "map_of (frame (world0 sex_frame)) ''sex'' = Some ?c"
    and t: "map_of (frame (world0 sex_frame)) ''time'' = Some ?t"
    and e: "map_of (frame (world0 sex_frame)) ''DEATH_EVENT'' = Some ?e"
    by (simp_all add: world0_def sex_frame_def)
  have nn: "NaN \<notin> set (cells ?c)" by simp
  have u: "np_unique ?c = Inr [IntV 0, IntV 1]" by code_simp
  have r: "recording_fit = (\<lambda>r. Inr ((\<lambda>x. x) r))" by (simp add: recording_fit_def fun_eq_iff)
  from one_curve_per_value[OF wf c t e nn, of "\<lambda>x. x"] obtain vs where
    vs: "np_unique ?c = Inr vs" and
    k: "length vs = card (set (cells ?c))" and
    fits: "cat_km_fits recording_fit ''sex'' (world0 sex_frame)
         = (Inr (map (\<lambda>v. \<lparr>durations = map snd (filter (\<lambda>(x, y). x = v) (zip (cells ?c) (cells ?t))),
                              event_observed = map snd (filter (\<lambda>(x, y). x = v) (zip (cells ?c) (cells ?e))),
                              label = ''sex'' @ '': '' @ str_cell v\<rparr>) vs),
            (world0 sex_frame)\<lparr>fit_log := fit_log (world0 sex_frame) @
                 map (\<lambda>v. \<lparr>durations = map snd (filter (\<lambda>(x, y). x = v) (zip (cells ?c) (cells ?t))),
                             event_observed = map snd (filter (\<lambda>(x, y). x = v) (zip (cells ?c) (cells ?e))),
                             label = ''sex'' @ '': '' @ str_cell v\<rparr>) vs\<rparr>)" and
    cnt: "\<forall>v \<in> set vs.
           length (filter (\<lambda>(x, y). x = v) (zip (cells ?c) (cells ?t))) = count_list (cells ?c) v"
    unfolding r by blast
  from vs u have v: "vs = [IntV 0, IntV 1]" by simp
  from k v have card: "card (set (cells ?c)) = 2" by simp
  have s0: "str_int 0 = ''0''" by code_simp
  have s1: "str_int 1 = ''1''" by code_simp
  have res: "fst (cat_km_fits recording_fit ''sex'' (world0 sex_frame))
       = Inr [\<lparr>durations = [IntV 4, IntV 7, IntV 7, IntV 8, IntV 10, IntV 11],
               event_observed = [IntV 1, IntV 1, IntV 1, IntV 1, IntV 1, IntV 0],
               label = ''sex: 0''\<rparr>,
              \<lparr>durations = [IntV 6, IntV 8, IntV 10, IntV 10],
               event_observed = [IntV 1, IntV 1, IntV 1, IntV 1],
               label = ''sex: 1''\<rparr>]"
    unfolding fits v by (simp add: s0 s1)
  have c0: "count_list (cells ?c) (IntV 0) = 6" and c1: "count_list (cells ?c) (IntV 1) = 4"
    by simp_all
  from wf c t e nn card c0 c1 res show ?thesis by simp
qed

subsection \<open>C2: the labels of the bins\<close>

text \<open>
  C2, as amended. In the continuous routine the label of a curve is the text of its
  bin with the comma replaced by \<^verbatim>\<open> -\<close> and the closing bracket by a parenthesis: the
  opening parenthesis of the interval is kept, so the label is \<^verbatim>\<open>(\<close>, the left end
  point, \<^verbatim>\<open> - \<close>, the right end point and \<^verbatim>\<open>)\<close>. There is one curve per
  bin that holds a row, in the order of the bins (and the label \<^verbatim>\<open>nan\<close> when no
  row at all has a bin). A column cut at the points 30, 60, 80 and 100 whose values occupy
  all three bins yields exactly three curves, labelled \<^verbatim>\<open>(30.0 - 60.0)\<close>,
  \<^verbatim>\<open>(60.0 - 80.0)\<close> and \<^verbatim>\<open>(80.0 - 100.0)\<close>.
\<close>

theorem bin_labels_keep_opening_parenthesis:
  assumes run: "cont_requests feature split_points w = (Inr reqs, w')"
    and col: "map_of (frame w) feature = Some c"
    and binned: "pd_cut c split_points = Inr bins"
  shows "(\<exists>range_hue. np_unique (CatCol bins) = Inr range_hue \<and> length reqs = length range_hue
           \<and> (\<forall>i < length reqs.
                  (range_hue ! i = NaN \<and> label (reqs ! i) = ''nan'')
                \<or> (\<exists>l u. range_hue ! i = IntervalV (Interval l u)
                       \<and> label (reqs ! i) = ''('' @ str_float l @ '' - '' @ str_float u @ '')'')))
       \<and> (split_points = Edges [30, 60, 80, 100] \<and> numeric c = Some xs
            \<and> (\<exists>x \<in> set xs. 30 < x \<and> x \<le> 60) \<and> (\<exists>x \<in> set xs. 60 < x \<and> x \<le> 80)
            \<and> (\<exists>x \<in> set xs. 80 < x \<and> x \<le> 100)
          \<longrightarrow> map label reqs = [''(30.0 - 60.0)'', ''(60.0 - 80.0)'', ''(80.0 - 100.0)''])"
proof -
  from cont_requests_labels[OF run col binned] obtain range_hue where
    u: "np_unique (CatCol bins) = Inr range_hue" and
    lab: "map label reqs = map fit_label_of range_hue" by blast
  from lab have len: "length reqs = length range_hue" by (metis length_map)
  have each: "\<forall>i < length reqs.
                  (range_hue ! i = NaN \<and> label (reqs ! i) = ''nan'')
                \<or> (\<exists>l u. range_hue ! i = IntervalV (Interval l u)
                       \<and> label (reqs ! i) = ''('' @ str_float l @ '' - '' @ str_float u @ '')'')"
  proof (intro allI impI)
    fix i assume i: "i < length reqs"
    then have li: "label (reqs ! i) = fit_label_of (range_hue ! i)"
      using lab len by (metis nth_map)
    from np_unique_cat_cases[OF u] i len
    have "range_hue ! i = NaN \<or> (\<exists>iv. range_hue ! i = IntervalV iv)" by auto
    then show "(range_hue ! i = NaN \<and> label (reqs ! i) = ''nan'')
                \<or> (\<exists>l u. range_hue ! i = IntervalV (Interval l u)
                       \<and> label (reqs ! i) = ''('' @ str_float l @ '' - '' @ str_float u @ '')'')"
    proof
      assume "range_hue ! i = NaN"
      with li show ?thesis by (simp add: fit_label_of_nan)
    next
      assume "\<exists>iv. range_hue ! i = IntervalV iv"
      then obtain l u' where "range_hue ! i = IntervalV (Interval l u')"
        by (metis interval.exhaust)
      with li show ?thesis by (simp only: fit_label_of_interval) blast
    qed
  qed
  have age: "map label reqs = [''(30.0 - 60.0)'', ''(60.0 - 80.0)'', ''(80.0 - 100.0)'']"
    if sp: "split_points = Edges [30, 60, 80, 100]" and num: "numeric c = Some xs"
      and b1: "\<exists>x \<in> set xs. 30 < x \<and> x \<le> 60" and b2: "\<exists>x \<in> set xs. 60 < x \<and> x \<le> 80"
      and b3: "\<exists>x \<in> set xs. 80 < x \<and> x \<le> 100"
  proof -
    let ?A = "assign_bin [30, 60, 80, 100] [30, 60, 80, 100]"
    from binned sp cut_age[OF num] have bins: "bins = map ?A xs" by simp
    from b1 have s1: "Some (Interval 30 60) \<in> set bins"
      unfolding bins by (auto simp: assign_bin_age image_iff intro!: bexI)
    from b2 have s2: "Some (Interval 60 80) \<in> set bins"
      unfolding bins by (auto simp: assign_bin_age image_iff intro!: bexI)
    from b3 have s3: "Some (Interval 80 100) \<in> set bins"
      unfolding bins by (auto simp: assign_bin_age image_iff intro!: bexI)
    from np_unique_cat_cases[OF u] s1 have
      none: "None \<notin> set bins" and
      rh: "range_hue = map IntervalV (remdups_adj (sort_key interval_key (map the bins)))"
      by auto
    have sub: "set bins \<subseteq> {None, Some (Interval 30 60), Some (Interval 60 80), Some (Interval 80 100)}"
      unfolding bins by (auto simp: assign_bin_age)
    have "set (map the bins) = set [Interval 30 60, Interval 60 80, Interval 80 100]"
    proof
      show "set (map the bins) \<subseteq> set [Interval 30 60, Interval 60 80, Interval 80 100]"
        using sub none by force
      show "set [Interval 30 60, Interval 60 80, Interval 80 100] \<subseteq> set (map the bins)"
        using s1 s2 s3 by (force simp: image_iff)
    qed
    then have "remdups_adj (sort_key interval_key (map the bins))
        = [Interval 30 60, Interval 60 80, Interval 80 100]"
      by (rule unique_intervals_determined) (simp_all add: interval_key_def)
    with rh lab show ?thesis by (simp add: fit_label_of_interval) code_simp
  qed
  from u len each age show ?thesis by blast
qed

text \<open>The age table: its five ages lie in all three bins.\<close>

theorem bin_labels_witness:
  "cont_requests ''age'' (Edges [30, 60, 80, 100]) (world0 age_frame)
     = (Inr age_requests, world0 age_frame)
   \<and> map_of (frame (world0 age_frame)) ''age'' = Some (FloatCol [75, 55, 65, 50, 90])
   \<and> pd_cut (FloatCol [75, 55, 65, 50, 90]) (Edges [30, 60, 80, 100])
       = Inr [Some (Interval 60 80), Some (Interval 30 60), Some (Interval 60 80),
              Some (Interval 30 60), Some (Interval 80 100)]
   \<and> numeric (FloatCol [75, 55, 65, 50, 90]) = Some [75, 55, 65, 50, 90]
   \<and> (55::rat) \<in> set [75, 55, 65, 50, 90] \<and> (30::rat) < 55 \<and> (55::rat) \<le> 60
   \<and> (75::rat) \<in> set [75, 55, 65, 50, 90] \<and> (60::rat) < 75 \<and> (75::rat) \<le> 80
   \<and> (90::rat) \<in> set [75, 55, 65, 50, 90] \<and> (80::rat) < 90 \<and> (90::rat) \<le> 100
   \<and> map label age_requests = [''(30.0 - 60.0)'', ''(60.0 - 80.0)'', ''(80.0 - 100.0)'']"
proof -
  let ?xs = "[75, 55, 65, 50, 90] :: rat list"
  have run: "cont_requests ''age'' (Edges [30, 60, 80, 100]) (world0 age_frame)
     = (Inr age_requests, world0 age_frame)"
    by code_simp
  have col: "map_of (frame (world0 age_frame)) ''age'' = Some (FloatCol ?xs)"
    by (simp add: world0_def age_frame_def)
  have binned: "pd_cut (FloatCol ?xs) (Edges [30, 60, 80, 100])
       = Inr [Some (Interval 60 80), Some (Interval 30 60), Some (Interval 60 80),
              Some (Interval 30 60), Some (Interval 80 100)]"
    by code_simp
  have num: "numeric (FloatCol ?xs) = Some ?xs" by simp
  have b1: "\<exists>x \<in> set ?xs. 30 < x \<and> x \<le> 60" by simp
  have b2: "\<exists>x \<in> set ?xs. 60 < x \<and> x \<le> 80" by simp
  have b3: "\<exists>x \<in> set ?xs. 80 < x \<and> x \<le> 100" by simp
  from bin_labels_keep_opening_parenthesis[OF run col binned, of ?xs] num b1 b2 b3
  have "map label age_requests = [''(30.0 - 60.0)'', ''(60.0 - 80.0)'', ''(80.0 - 100.0)'']"
    by blast
  with run col binned num show ?thesis by simp
qed

text \<open>The claim as stated fails on the same table: the labels start with the opening
  parenthesis, they are not \<^verbatim>\<open>30.0 - 60.0)\<close>, \<^verbatim>\<open>60.0 - 80.0)\<close> and
  \<^verbatim>\<open>80.0 - 100.0)\<close>.\<close>

theorem bin_labels_counterexample:
  "map_sum id (map label)
     (fst (cont_requests ''age'' (Edges [30, 60, 80, 100]) (world0 age_frame)))
     = Inr [''(30.0 - 60.0)'', ''(60.0 - 80.0)'', ''(80.0 - 100.0)'']
   \<and> map_sum id (map label)
     (fst (cont_requests ''age'' (Edges [30, 60, 80, 100]) (world0 age_frame)))
     \<noteq> Inr [''30.0 - 60.0)'', ''60.0 - 80.0)'', ''80.0 - 100.0)'']"
  by code_simp

subsection \<open>C3: subgroups and bins\<close>




subsection \<open>C4: the scratch column\<close>

text \<open>
  C4, as amended. The continuous routine has no exception handler: the scratch column
  \<^verbatim>\<open>feature + "_group"\<close> is dropped by a plain statement after \<open>X\<close>, \<open>Y\<close> and the labels
  are built. A call that returns normally leaves the caller's table without any column
  named \<^verbatim>\<open>feature + "_group"\<close> for a listed feature (and otherwise as it was). A call
  on a table that has the columns \<^verbatim>\<open>time\<close> and \<^verbatim>\<open>DEATH_EVENT\<close> leaves only columns of
  the original table behind, whether it returns or raises. When one of the two columns
  is missing, the exception raised between adding and dropping leaves the scratch
  column in the table.
\<close>

theorem scratch_column_removed_unless_selection_fails:
  "(PlotKaplanMeierEstimatesForContinuousVariables fit cols w = (Inr (), w') \<longrightarrow>
      frame w' = filter (\<lambda>(n, c). n \<notin> (\<lambda>f. f @ ''_group'') ` set cols) (frame w))
   \<and> (map_of (frame w) ''time'' \<noteq> None \<and> map_of (frame w) ''DEATH_EVENT'' \<noteq> None \<longrightarrow>
      set (frame (snd (PlotKaplanMeierEstimatesForContinuousVariables fit cols w))) \<subseteq> set (frame w))"
proof (intro conjI impI)
  assume "PlotKaplanMeierEstimatesForContinuousVariables fit cols w = (Inr (), w')"
  then obtain w2 w3 w4 where
    l: "cont_loop fit 0 cols (w\<lparr>axes := Some (subplots 3 3)\<rparr>) = (Inr (), w2)" and
    h1: "hide_from_end 1 w2 = (Inr (), w3)" and
    h2: "hide_from_end 2 w3 = (Inr (), w4)" and
    w': "w' = w4\<lparr>suptitle := Some ''Kaplan Meier Estimates for Continuous Variables '', shown := True\<rparr>"
    by (auto simp: PlotKaplanMeierEstimatesForContinuousVariables_def Let_def
             split: sum.splits prod.splits)
  from cont_loop_Inr_frame[OF l] hide_from_end_frame[OF h1] hide_from_end_frame[OF h2] w'
  show "frame w' = filter (\<lambda>(n, c). n \<notin> (\<lambda>f. f @ ''_group'') ` set cols) (frame w)" by simp
next
  let ?w1 = "w\<lparr>axes := Some (subplots 3 3)\<rparr>"
  assume td: "map_of (frame w) ''time'' \<noteq> None \<and> map_of (frame w) ''DEATH_EVENT'' \<noteq> None"
  obtain r w2 where l: "cont_loop fit 0 cols ?w1 = (r, w2)" by (cases "cont_loop fit 0 cols ?w1")
  from cont_loop_frame_safe[OF l] td have s: "set (frame w2) \<subseteq> set (frame w)" by simp
  obtain r3 w3 where h1: "hide_from_end 1 w2 = (r3, w3)" by (cases "hide_from_end 1 w2")
  obtain r4 w4 where h2: "hide_from_end 2 w3 = (r4, w4)" by (cases "hide_from_end 2 w3")
  from hide_from_end_frame[OF h1] hide_from_end_frame[OF h2] s
  have s3: "set (frame w3) \<subseteq> set (frame w)" and s4: "set (frame w4) \<subseteq> set (frame w)" by simp_all
  show "set (frame (snd (PlotKaplanMeierEstimatesForContinuousVariables fit cols w))) \<subseteq> set (frame w)"
    using l h1 h2 s s3 s4
    by (auto simp: PlotKaplanMeierEstimatesForContinuousVariables_def Let_def
             split: sum.splits prod.splits)
qed

text \<open>A normal call on the age table, and a call whose estimator raises after the
  scratch column was dropped.\<close>

theorem scratch_column_removed_witness:
  "fst (PlotKaplanMeierEstimatesForContinuousVariables recording_fit [''age''] (world0 age_frame)) = Inr ()
   \<and> frame (snd (PlotKaplanMeierEstimatesForContinuousVariables recording_fit [''age''] (world0 age_frame))) = age_frame
   \<and> map_of (frame (world0 age_frame)) ''time'' \<noteq> None
   \<and> map_of (frame (world0 age_frame)) ''DEATH_EVENT'' \<noteq> None
   \<and> fst (PlotKaplanMeierEstimatesForContinuousVariables failing_fit [''age''] (world0 age_frame)) = Inl ValueError
   \<and> set (frame (snd (PlotKaplanMeierEstimatesForContinuousVariables failing_fit [''age''] (world0 age_frame))))
       \<subseteq> set (frame (world0 age_frame))"
proof -
  have ok: "fst (PlotKaplanMeierEstimatesForContinuousVariables recording_fit [''age''] (world0 age_frame)) = Inr ()"
    by code_simp
  then have run: "PlotKaplanMeierEstimatesForContinuousVariables recording_fit [''age''] (world0 age_frame)
      = (Inr (), snd (PlotKaplanMeierEstimatesForContinuousVariables recording_fit [''age''] (world0 age_frame)))"
    by (simp add: prod_eq_iff)
  have t: "map_of (frame (world0 age_frame)) ''time'' \<noteq> None"
    and d: "map_of (frame (world0 age_frame)) ''DEATH_EVENT'' \<noteq> None"
    by (simp_all add: world0_def age_frame_def)
  have bad: "fst (PlotKaplanMeierEstimatesForContinuousVariables failing_fit [''age''] (world0 age_frame)) = Inl ValueError"
    by code_simp
  have flt: "filter (\<lambda>(n, c). n \<notin> (\<lambda>f. f @ ''_group'') ` set [''age'']) (frame (world0 age_frame))
      = age_frame"
    by (simp add: world0_def age_frame_def)
  from scratch_column_removed_unless_selection_fails
         [of recording_fit "[''age'']" "world0 age_frame"
             "snd (PlotKaplanMeierEstimatesForContinuousVariables recording_fit [''age''] (world0 age_frame))"]
       run flt
  have "frame (snd (PlotKaplanMeierEstimatesForContinuousVariables recording_fit [''age''] (world0 age_frame))) = age_frame"
    by simp
  moreover
  from scratch_column_removed_unless_selection_fails
         [of failing_fit "[''age'']" "world0 age_frame"] t d
  have "set (frame (snd (PlotKaplanMeierEstimatesForContinuousVariables failing_fit [''age''] (world0 age_frame))))
          \<subseteq> set (frame (world0 age_frame))"
    by blast
  ultimately show ?thesis using ok t d bad by simp
qed

text \<open>The claim as stated fails on a table without a \<^verbatim>\<open>time\<close> column: the call raises
  a lookup error while selecting \<open>X\<close>, and the column \<^verbatim>\<open>age_group\<close> stays in the caller's
  table.\<close>

theorem scratch_column_left_behind_counterexample:
  "fst (PlotKaplanMeierEstimatesForContinuousVariables recording_fit [''age''] (world0 no_time_frame)) = Inl KeyError
   \<and> frame (snd (PlotKaplanMeierEstimatesForContinuousVariables recording_fit [''age''] (world0 no_time_frame)))
       = [(''age'', FloatCol [75, 55]), (''DEATH_EVENT'', IntCol [1, 0]),
          (''age_group'', CatCol [Some (Interval 60 80), Some (Interval 30 60)])]"
  by code_simp

subsection \<open>C5: the grid and its hidden panels\<close>

text \<open>
  C5, as amended. Once the projection on the columns has succeeded, the categorical
  figure has exactly 6 panels and the continuous figure exactly 9, also when the call
  raises later. The statements that hide panels are unconditional: after a call that
  returns, the last panel of the categorical figure is hidden and the last two panels
  of the continuous figure are hidden, whatever the number of columns; all other
  panels are visible.
\<close>

theorem panels_hidden_unconditionally:
  "((\<forall>c \<in> set cols. map_of (frame w) c \<noteq> None) \<longrightarrow>
      (\<exists>ax. axes (snd (PlotKaplanMeierEstimatesForCategoricalVariables fit cols w)) = Some ax
            \<and> length ax = 6)
      \<and> (\<exists>ax. axes (snd (PlotKaplanMeierEstimatesForContinuousVariables fit cols w)) = Some ax
            \<and> length ax = 9))
   \<and> (PlotKaplanMeierEstimatesForCategoricalVariables fit cols w = (Inr (), w') \<longrightarrow>
      (\<exists>ax. axes w' = Some ax \<and> map visible ax = [True, True, True, True, True, False]))
   \<and> (PlotKaplanMeierEstimatesForContinuousVariables fit cols w = (Inr (), w') \<longrightarrow>
      (\<exists>ax. axes w' = Some ax \<and>
            map visible ax = [True, True, True, True, True, True, True, False, False]))"
proof (intro conjI impI)
  assume "\<forall>c \<in> set cols. map_of (frame w) c \<noteq> None"
  then show "\<exists>ax. axes (snd (PlotKaplanMeierEstimatesForCategoricalVariables fit cols w)) = Some ax
            \<and> length ax = 6"
    by (rule categorical_figure_size)
next
  assume "\<forall>c \<in> set cols. map_of (frame w) c \<noteq> None"
  then show "\<exists>ax. axes (snd (PlotKaplanMeierEstimatesForContinuousVariables fit cols w)) = Some ax
            \<and> length ax = 9"
    by (rule continuous_figure_size)
next
  assume run: "PlotKaplanMeierEstimatesForCategoricalVariables fit cols w = (Inr (), w')"
  let ?w1 = "w\<lparr>axes := Some (subplots 2 3)\<rparr>"
  from run obtain w2 w3 where
    l: "cat_loop fit 0 cols ?w1 = (Inr (), w2)" and
    h: "hide_from_end 1 w2 = (Inr (), w3)" and
    w': "w' = w3\<lparr>suptitle := Some ''Kaplan Meier Estimates for Categorical Variables '', shown := True\<rparr>"
    by (auto simp: PlotKaplanMeierEstimatesForCategoricalVariables_def Let_def
             split: sum.splits prod.splits)
  from cat_loop_visible[OF l, of "subplots 2 3"] obtain ax2 where
    a2: "axes w2 = Some ax2" "map visible ax2 = map visible (subplots 2 3 :: 'a panel list)" by auto
  from a2(2) have v2: "map visible ax2 = [True, True, True, True, True, True]"
    by (simp add: subplots_visible numeral_eq_Suc)
  then have "length (map visible ax2) = 6" by simp
  then have len: "length ax2 = 6" by simp
  from hide_from_end_visible[OF h a2(1)] have
    a3: "axes w3 = Some (ax2[length ax2 - 1 := (ax2 ! (length ax2 - 1))\<lparr>visible := False\<rparr>])" by simp
  have "map visible (ax2[5 := (ax2 ! 5)\<lparr>visible := False\<rparr>]) = (map visible ax2)[5 := False]"
    by (simp add: map_update)
  with v2 len a3 w' show "\<exists>ax. axes w' = Some ax \<and> map visible ax = [True, True, True, True, True, False]"
    by simp
next
  assume run: "PlotKaplanMeierEstimatesForContinuousVariables fit cols w = (Inr (), w')"
  let ?w1 = "w\<lparr>axes := Some (subplots 3 3)\<rparr>"
  from run obtain w2 w3 w4 where
    l: "cont_loop fit 0 cols ?w1 = (Inr (), w2)" and
    h1: "hide_from_end 1 w2 = (Inr (), w3)" and
    h2: "hide_from_end 2 w3 = (Inr (), w4)" and
    w': "w' = w4\<lparr>suptitle := Some ''Kaplan Meier Estimates for Continuous Variables '', shown := True\<rparr>"
    by (auto simp: PlotKaplanMeierEstimatesForContinuousVariables_def Let_def
             split: sum.splits prod.splits)
  from cont_loop_visible[OF l, of "subplots 3 3"] obtain ax2 where
    a2: "axes w2 = Some ax2" "map visible ax2 = map visible (subplots 3 3 :: 'a panel list)" by auto
  from a2(2) have v2: "map visible ax2 = [True, True, True, True, True, True, True, True, True]"
    by (simp add: subplots_visible numeral_eq_Suc)
  then have "length (map visible ax2) = 9" by simp
  then have len: "length ax2 = 9" by simp
  define ax3 where "ax3 = ax2[8 := (ax2 ! 8)\<lparr>visible := False\<rparr>]"
  from hide_from_end_visible[OF h1 a2(1)] len have a3: "axes w3 = Some ax3" by (simp add: ax3_def)
  have len3: "length ax3 = 9" by (simp add: ax3_def len)
  from hide_from_end_visible[OF h2 a3] len3 have
    a4: "axes w4 = Some (ax3[7 := (ax3 ! 7)\<lparr>visible := False\<rparr>])" by simp
  have "map visible (ax3[7 := (ax3 ! 7)\<lparr>visible := False\<rparr>]) = (map visible ax2)[8 := False, 7 := False]"
    by (simp add: map_update ax3_def)
  with v2 a4 w' show "\<exists>ax. axes w' = Some ax \<and>
            map visible ax = [True, True, True, True, True, True, True, False, False]"
    by simp
qed

text \<open>One categorical column on the sex table and one continuous column on the age
  table, with an estimator that raises and with one that accepts every call.\<close>

theorem panels_hidden_witness:
  "map_of (frame (world0 sex_frame)) ''sex'' \<noteq> None
   \<and> fst (PlotKaplanMeierEstimatesForCategoricalVariables failing_fit [''sex''] (world0 sex_frame)) = Inl ValueError
   \<and> (\<exists>ax. axes (snd (PlotKaplanMeierEstimatesForCategoricalVariables failing_fit [''sex''] (world0 sex_frame))) = Some ax \<and> length ax = 6)
   \<and> map_of (frame (world0 age_frame)) ''age'' \<noteq> None
   \<and> fst (PlotKaplanMeierEstimatesForContinuousVariables failing_fit [''age''] (world0 age_frame)) = Inl ValueError
   \<and> (\<exists>ax. axes (snd (PlotKaplanMeierEstimatesForContinuousVariables failing_fit [''age''] (world0 age_frame))) = Some ax \<and> length ax = 9)
   \<and> fst (PlotKaplanMeierEstimatesForCategoricalVariables recording_fit [''sex''] (world0 sex_frame)) = Inr ()
   \<and> map_option (map visible)
        (axes (snd (PlotKaplanMeierEstimatesForCategoricalVariables recording_fit [''sex''] (world0 sex_frame))))
       = Some [True, True, True, True, True, False]
   \<and> fst (PlotKaplanMeierEstimatesForContinuousVariables recording_fit [''age''] (world0 age_frame)) = Inr ()
   \<and> map_option (map visible)
        (axes (snd (PlotKaplanMeierEstimatesForContinuousVariables recording_fit [''age''] (world0 age_frame))))
       = Some [True, True, True, True, True, True, True, False, False]"
proof -
  have s: "map_of (frame (world0 sex_frame)) ''sex'' \<noteq> None"
    by (simp add: world0_def sex_frame_def)
  then have s': "\<forall>c \<in> set [''sex'']. map_of (frame (world0 sex_frame)) c \<noteq> None" by simp
  have a: "map_of (frame (world0 age_frame)) ''age'' \<noteq> None"
    by (simp add: world0_def age_frame_def)
  then have a': "\<forall>c \<in> set [''age'']. map_of (frame (world0 age_frame)) c \<noteq> None" by simp
  have bad1: "fst (PlotKaplanMeierEstimatesForCategoricalVariables failing_fit [''sex''] (world0 sex_frame)) = Inl ValueError"
    by code_simp
  have bad2: "fst (PlotKaplanMeierEstimatesForContinuousVariables failing_fit [''age''] (world0 age_frame)) = Inl ValueError"
    by code_simp
  from panels_hidden_unconditionally
         [where fit = failing_fit and cols = "[''sex'']" and w = "world0 sex_frame"] s'
  have n1: "\<exists>ax. axes (snd (PlotKaplanMeierEstimatesForCategoricalVariables failing_fit [''sex''] (world0 sex_frame))) = Some ax \<and> length ax = 6"
    by blast
  from panels_hidden_unconditionally
         [where fit = failing_fit and cols = "[''age'']" and w = "world0 age_frame"] a'
  have n2: "\<exists>ax. axes (snd (PlotKaplanMeierEstimatesForContinuousVariables failing_fit [''age''] (world0 age_frame))) = Some ax \<and> length ax = 9"
    by blast
  have ok1: "fst (PlotKaplanMeierEstimatesForCategoricalVariables recording_fit [''sex''] (world0 sex_frame)) = Inr ()"
    by code_simp
  then have run1: "PlotKaplanMeierEstimatesForCategoricalVariables recording_fit [''sex''] (world0 sex_frame)
      = (Inr (), snd (PlotKaplanMeierEstimatesForCategoricalVariables recording_fit [''sex''] (world0 sex_frame)))"
    by (simp add: prod_eq_iff)
  have ok2: "fst (PlotKaplanMeierEstimatesForContinuousVariables recording_fit [''age''] (world0 age_frame)) = Inr ()"
    by code_simp
  then have run2: "PlotKaplanMeierEstimatesForContinuousVariables recording_fit [''age''] (world0 age_frame)
      = (Inr (), snd (PlotKaplanMeierEstimatesForContinuousVariables recording_fit [''age''] (world0 age_frame)))"
    by (simp add: prod_eq_iff)
  from panels_hidden_unconditionally
         [where fit = recording_fit and cols = "[''sex'']" and w = "world0 sex_frame"
            and w' = "snd (PlotKaplanMeierEstimatesForCategoricalVariables recording_fit [''sex''] (world0 sex_frame))"] run1
  have v1: "map_option (map visible)
        (axes (snd (PlotKaplanMeierEstimatesForCategoricalVariables recording_fit [''sex''] (world0 sex_frame))))
       = Some [True, True, True, True, True, False]"
    by auto
  from panels_hidden_unconditionally
         [where fit = recording_fit and cols = "[''age'']" and w = "world0 age_frame"
            and w' = "snd (PlotKaplanMeierEstimatesForContinuousVariables recording_fit [''age''] (world0 age_frame))"] run2
  have v2: "map_option (map visible)
        (axes (snd (PlotKaplanMeierEstimatesForContinuousVariables recording_fit [''age''] (world0 age_frame))))
       = Some [True, True, True, True, True, True, True, False, False]"
    by auto
  from s bad1 n1 a bad2 n2 ok1 v1 ok2 v2 show ?thesis by (intro conjI)
qed

text \<open>The claim as stated fails with six categorical columns: the call returns, the
  sixth column's curves are drawn on the last panel, and that panel is hidden.\<close>

theorem sixth_panel_hidden_counterexample:
  "fst (PlotKaplanMeierEstimatesForCategoricalVariables recording_fit six_columns (world0 six_frame)) = Inr ()
   \<and> map_option (map visible)
        (axes (snd (PlotKaplanMeierEstimatesForCategoricalVariables recording_fit six_columns (world0 six_frame))))
       = Some [True, True, True, True, True, False]
   \<and> map_option (map (map label \<circ> curves))
        (axes (snd (PlotKaplanMeierEstimatesForCategoricalVariables recording_fit six_columns (world0 six_frame))))
       = Some [[''anaemia: 0'', ''anaemia: 1''], [''diabetes: 0'', ''diabetes: 1''],
               [''high_blood_pressure: 0'', ''high_blood_pressure: 1''],
               [''sex: 0'', ''sex: 1''], [''smoking: 0'', ''smoking: 1''],
               [''obesity: 0'', ''obesity: 1'']]"
  by code_simp

subsection \<open>C6: bin specifications are matched by position\<close>



subsection \<open>C7: failures reach the caller\<close>

text \<open>
  C7. Neither routine catches an exception, retries or recovers. A listed column that
  is missing from the table makes both routines raise the lookup error of the table
  access. A routine that returns normally has met no failure: every listed column was
  present, every estimator call it made succeeded, and for the continuous routine
  every listed column was numeric and there were at most 7 of them (the number of bin
  specifications). A first continuous column that is not numeric makes the call raise
  the type error of the binning.
\<close>

theorem failures_propagate:
  "((\<exists>f \<in> set cols. map_of (frame w) f = None) \<longrightarrow>
      fst (PlotKaplanMeierEstimatesForCategoricalVariables fit cols w) = Inl KeyError
      \<and> fst (PlotKaplanMeierEstimatesForContinuousVariables fit cols w) = Inl KeyError)
   \<and> (PlotKaplanMeierEstimatesForCategoricalVariables fit cols w = (Inr (), w') \<longrightarrow>
        (\<forall>f \<in> set cols. map_of (frame w) f \<noteq> None)
        \<and> (\<exists>new. fit_log w' = fit_log w @ new \<and> (\<forall>r \<in> set new. \<exists>c. fit r = Inr c)))
   \<and> (PlotKaplanMeierEstimatesForContinuousVariables fit cols w = (Inr (), w') \<longrightarrow>
        length cols \<le> 7
        \<and> (\<forall>f \<in> set cols. \<exists>c. map_of (frame w) f = Some c \<and> numeric c \<noteq> None)
        \<and> (\<exists>new. fit_log w' = fit_log w @ new \<and> (\<forall>r \<in> set new. \<exists>c. fit r = Inr c)))
   \<and> ((\<forall>f \<in> set (g # rest). map_of (frame w) f \<noteq> None) \<and> map_of (frame w) g = Some c
        \<and> numeric c = None \<longrightarrow>
        fst (PlotKaplanMeierEstimatesForContinuousVariables fit (g # rest) w) = Inl TypeError)"
proof (intro conjI impI)
  assume "\<exists>f \<in> set cols. map_of (frame w) f = None"
  then show "fst (PlotKaplanMeierEstimatesForCategoricalVariables fit cols w) = Inl KeyError"
    and "fst (PlotKaplanMeierEstimatesForContinuousVariables fit cols w) = Inl KeyError"
    by (auto simp: PlotKaplanMeierEstimatesForCategoricalVariables_def
                   PlotKaplanMeierEstimatesForContinuousVariables_def loc_columns_def)
next
  assume run: "PlotKaplanMeierEstimatesForCategoricalVariables fit cols w = (Inr (), w')"
  then obtain d w2 w3 where
    p: "loc_columns (frame w) cols = Inr d" and
    l: "cat_loop fit 0 cols (w\<lparr>axes := Some (subplots 2 3)\<rparr>) = (Inr (), w2)" and
    h: "hide_from_end 1 w2 = (Inr (), w3)" and
    w': "w' = w3\<lparr>suptitle := Some ''Kaplan Meier Estimates for Categorical Variables '', shown := True\<rparr>"
    by (auto simp: PlotKaplanMeierEstimatesForCategoricalVariables_def Let_def
             split: sum.splits prod.splits)
  from p show "\<forall>f \<in> set cols. map_of (frame w) f \<noteq> None"
    by (auto simp: loc_columns_def split: if_splits)
  from cat_loop_Inr_ok[OF l] hide_from_end_frame[OF h] w'
  show "\<exists>new. fit_log w' = fit_log w @ new \<and> (\<forall>r \<in> set new. \<exists>c. fit r = Inr c)" by simp
next
  assume run: "PlotKaplanMeierEstimatesForContinuousVariables fit cols w = (Inr (), w')"
  then obtain w2 w3 w4 where
    l: "cont_loop fit 0 cols (w\<lparr>axes := Some (subplots 3 3)\<rparr>) = (Inr (), w2)" and
    h1: "hide_from_end 1 w2 = (Inr (), w3)" and
    h2: "hide_from_end 2 w3 = (Inr (), w4)" and
    w': "w' = w4\<lparr>suptitle := Some ''Kaplan Meier Estimates for Continuous Variables '', shown := True\<rparr>"
    by (auto simp: PlotKaplanMeierEstimatesForContinuousVariables_def Let_def
             split: sum.splits prod.splits)
  from cont_loop_capacity[OF l] show "length cols \<le> 7" by (simp add: length_data_split_points)
  from cont_loop_Inr_ok[OF l]
  show "\<forall>f \<in> set cols. \<exists>c. map_of (frame w) f = Some c \<and> numeric c \<noteq> None" by simp
  from cont_loop_Inr_ok[OF l] hide_from_end_frame[OF h1] hide_from_end_frame[OF h2] w'
  show "\<exists>new. fit_log w' = fit_log w @ new \<and> (\<forall>r \<in> set new. \<exists>c. fit r = Inr c)" by simp
next
  assume a: "(\<forall>f \<in> set (g # rest). map_of (frame w) f \<noteq> None) \<and> map_of (frame w) g = Some c
        \<and> numeric c = None"
  then have p: "\<exists>d. loc_columns (frame w) (g # rest) = Inr d"
    by (simp add: loc_columns_def)
  have "pd_cut c (data_split_points ! 0) = Inl TypeError"
    using a by (simp add: data_split_points_def)
  then have "cont_km_fits fit g (data_split_points ! 0) (w\<lparr>axes := Some (subplots 3 3)\<rparr>)
      = (Inl TypeError, w\<lparr>axes := Some (subplots 3 3)\<rparr>)"
    using a by (simp add: cont_km_fits_def cont_requests_def getitem_def)
  then have "cont_loop fit 0 (g # rest) (w\<lparr>axes := Some (subplots 3 3)\<rparr>)
      = (Inl TypeError, w\<lparr>axes := Some (subplots 3 3)\<rparr>)"
    by (simp add: length_data_split_points)
  with p show "fst (PlotKaplanMeierEstimatesForContinuousVariables fit (g # rest) w) = Inl TypeError"
    by (auto simp: PlotKaplanMeierEstimatesForContinuousVariables_def Let_def)
qed

text \<open>The four cases on the sample tables: a missing column, a normal categorical
  call, a normal continuous call, and a column of strings given to the binning.\<close>

theorem failures_propagate_witness:
  "''bmi'' \<in> set eight_columns \<and> map_of (frame (world0 age_frame)) ''bmi'' = None
   \<and> fst (PlotKaplanMeierEstimatesForCategoricalVariables recording_fit eight_columns
            (world0 age_frame)) = Inl KeyError
   \<and> fst (PlotKaplanMeierEstimatesForContinuousVariables recording_fit eight_columns
            (world0 age_frame)) = Inl KeyError
   \<and> fst (PlotKaplanMeierEstimatesForCategoricalVariables recording_fit [''sex'']
            (world0 sex_frame)) = Inr ()
   \<and> map_of (frame (world0 sex_frame)) ''sex'' \<noteq> None
   \<and> fst (PlotKaplanMeierEstimatesForContinuousVariables recording_fit [''age'']
            (world0 age_frame)) = Inr ()
   \<and> (\<exists>c. map_of (frame (world0 age_frame)) ''age'' = Some c \<and> numeric c \<noteq> None)
   \<and> map_of (frame (world0 ward_frame)) ''ward'' = Some (StrCol [''a'', ''b''])
   \<and> numeric (StrCol [''a'', ''b'']) = None
   \<and> fst (PlotKaplanMeierEstimatesForContinuousVariables recording_fit [''ward'']
            (world0 ward_frame)) = Inl TypeError"
proof -
  have m: "''bmi'' \<in> set eight_columns" by (simp add: eight_columns_def)
  have n: "map_of (frame (world0 age_frame)) ''bmi'' = None"
    by (simp add: world0_def age_frame_def)
  from m n have h: "\<exists>f \<in> set eight_columns. map_of (frame (world0 age_frame)) f = None" by blast
  have k: "fst (PlotKaplanMeierEstimatesForCategoricalVariables recording_fit eight_columns
            (world0 age_frame)) = Inl KeyError
      \<and> fst (PlotKaplanMeierEstimatesForContinuousVariables recording_fit eight_columns
            (world0 age_frame)) = Inl KeyError"
    using failures_propagate[where cols = eight_columns and w = "world0 age_frame"
                               and fit = recording_fit] h
    by blast
  have ok1: "fst (PlotKaplanMeierEstimatesForCategoricalVariables recording_fit [''sex'']
            (world0 sex_frame)) = Inr ()"
    by code_simp
  then have run1: "PlotKaplanMeierEstimatesForCategoricalVariables recording_fit [''sex'']
            (world0 sex_frame)
      = (Inr (), snd (PlotKaplanMeierEstimatesForCategoricalVariables recording_fit [''sex'']
            (world0 sex_frame)))"
    by (simp add: prod_eq_iff)
  have s: "map_of (frame (world0 sex_frame)) ''sex'' \<noteq> None"
    using failures_propagate[where cols = "[''sex'']" and w = "world0 sex_frame"
                               and fit = recording_fit
                               and w' = "snd (PlotKaplanMeierEstimatesForCategoricalVariables
                                                recording_fit [''sex''] (world0 sex_frame))"] run1
    by simp
  have ok2: "fst (PlotKaplanMeierEstimatesForContinuousVariables recording_fit [''age'']
            (world0 age_frame)) = Inr ()"
    by code_simp
  then have run2: "PlotKaplanMeierEstimatesForContinuousVariables recording_fit [''age'']
            (world0 age_frame)
      = (Inr (), snd (PlotKaplanMeierEstimatesForContinuousVariables recording_fit [''age'']
            (world0 age_frame)))"
    by (simp add: prod_eq_iff)
  have a: "\<exists>c. map_of (frame (world0 age_frame)) ''age'' = Some c \<and> numeric c \<noteq> None"
    using failures_propagate[where cols = "[''age'']" and w = "world0 age_frame"
                               and fit = recording_fit
                               and w' = "snd (PlotKaplanMeierEstimatesForContinuousVariables
                                                recording_fit [''age''] (world0 age_frame))"] run2
    by simp
  have w1: "map_of (frame (world0 ward_frame)) ''ward'' = Some (StrCol [''a'', ''b''])"
    by (simp add: world0_def ward_frame_def)
  have w2: "numeric (StrCol [''a'', ''b'']) = None" by simp
  have w3: "\<forall>f \<in> set [''ward'']. map_of (frame (world0 ward_frame)) f \<noteq> None"
    by (simp add: world0_def ward_frame_def)
  have t: "fst (PlotKaplanMeierEstimatesForContinuousVariables recording_fit [''ward'']
            (world0 ward_frame)) = Inl TypeError"
    using failures_propagate[where g = "''ward''" and rest = "[]" and w = "world0 ward_frame"
                               and fit = recording_fit and c = "StrCol [''a'', ''b'']"] w1 w2 w3
    by blast
  from m n k ok1 s ok2 a w1 w2 t show ?thesis by blast
qed

subsection \<open>C8: more columns than bin specifications\<close>

text \<open>
  C8, as amended. The list of bin specifications has 7 entries. Every call of the
  continuous routine with more than 7 column names raises. When the projection on the
  columns succeeds and the first seven columns are binned, fitted and plotted without
  an exception, the exception is the index error of fetching the specification of the
  eighth column; otherwise it is the earlier exception.
\<close>

theorem more_than_seven_columns_fail:
  assumes "7 < length cols"
  shows "(\<exists>e. fst (PlotKaplanMeierEstimatesForContinuousVariables fit cols w) = Inl e)
       \<and> (loc_columns (frame w) cols \<noteq> Inl KeyError \<longrightarrow>
            cont_loop fit 0 (take 7 cols) (w\<lparr>axes := Some (subplots 3 3)\<rparr>) = (Inr (), w7) \<longrightarrow>
            PlotKaplanMeierEstimatesForContinuousVariables fit cols w = (Inl IndexError, w7))"
proof (intro conjI impI)
  let ?w1 = "w\<lparr>axes := Some (subplots 3 3)\<rparr>"
  show "\<exists>e. fst (PlotKaplanMeierEstimatesForContinuousVariables fit cols w) = Inl e"
  proof (cases "loc_columns (frame w) cols")
    case (Inl e)
    then show ?thesis by (simp add: PlotKaplanMeierEstimatesForContinuousVariables_def)
  next
    case (Inr d)
    obtain r w2 where l: "cont_loop fit 0 cols ?w1 = (r, w2)" by (cases "cont_loop fit 0 cols ?w1")
    have "r \<noteq> Inr ()"
    proof
      assume "r = Inr ()"
      with l cont_loop_capacity[of fit 0 cols ?w1 "()" w2] assms show False
        by (simp add: length_data_split_points)
    qed
    then obtain e where "r = Inl e" by (cases r) auto
    with Inr l show ?thesis by (simp add: PlotKaplanMeierEstimatesForContinuousVariables_def Let_def)
  qed
next
  let ?w1 = "w\<lparr>axes := Some (subplots 3 3)\<rparr>"
  assume ok: "loc_columns (frame w) cols \<noteq> Inl KeyError"
    and seven: "cont_loop fit 0 (take 7 cols) ?w1 = (Inr (), w7)"
  from ok obtain d where d: "loc_columns (frame w) cols = Inr d"
    by (auto simp: loc_columns_def split: if_splits)
  from assms obtain f rest where dr: "drop 7 cols = f # rest"
    by (cases "drop 7 cols") auto
  have "cols = take 7 cols @ f # rest" using dr by (metis append_take_drop_id)
  then have "cont_loop fit 0 cols ?w1 = cont_loop fit 0 (take 7 cols @ f # rest) ?w1" by simp
  also have "\<dots> = cont_loop fit (0 + length (take 7 cols)) (f # rest) w7"
    using seven by (simp only: cont_loop_append) simp
  also have "\<dots> = (Inl IndexError, w7)"
    using assms by (simp add: length_data_split_points min_def)
  finally show "PlotKaplanMeierEstimatesForContinuousVariables fit cols w = (Inl IndexError, w7)"
    using d by (simp add: PlotKaplanMeierEstimatesForContinuousVariables_def Let_def)
qed

text \<open>Eight names on a table that has them all: the first seven columns are plotted
  and the call raises the index error. Eight names on the age table: the call raises.\<close>

theorem more_than_seven_columns_witness:
  "7 < length wide_columns
   \<and> loc_columns (frame (world0 wide_frame)) wide_columns \<noteq> Inl KeyError
   \<and> fst (cont_loop recording_fit 0 (take 7 wide_columns)
            ((world0 wide_frame)\<lparr>axes := Some (subplots 3 3)\<rparr>)) = Inr ()
   \<and> fst (PlotKaplanMeierEstimatesForContinuousVariables recording_fit wide_columns
            (world0 wide_frame)) = Inl IndexError
   \<and> 7 < length eight_columns
   \<and> (\<exists>e. fst (PlotKaplanMeierEstimatesForContinuousVariables recording_fit eight_columns
                 (world0 age_frame)) = Inl e)"
proof -
  let ?w1 = "(world0 wide_frame)\<lparr>axes := Some (subplots 3 3)\<rparr>"
  let ?seven = "take 7 wide_columns"
  have h: "7 < length wide_columns" by (simp add: wide_columns_def)
  have p: "loc_columns (frame (world0 wide_frame)) wide_columns \<noteq> Inl KeyError" by code_simp
  have e0: "\<not> isl (fst (cont_requests (?seven ! 0) (data_split_points ! (0 + 0)) ?w1))"
    by code_simp
  have e1: "\<not> isl (fst (cont_requests (?seven ! 1) (data_split_points ! (0 + 1)) ?w1))"
    by code_simp
  have e2: "\<not> isl (fst (cont_requests (?seven ! 2) (data_split_points ! (0 + 2)) ?w1))"
    by code_simp
  have e3: "\<not> isl (fst (cont_requests (?seven ! 3) (data_split_points ! (0 + 3)) ?w1))"
    by code_simp
  have e4: "\<not> isl (fst (cont_requests (?seven ! 4) (data_split_points ! (0 + 4)) ?w1))"
    by code_simp
  have e5: "\<not> isl (fst (cont_requests (?seven ! 5) (data_split_points ! (0 + 5)) ?w1))"
    by code_simp
  have e6: "\<not> isl (fst (cont_requests (?seven ! 6) (data_split_points ! (0 + 6)) ?w1))"
    by code_simp
  have each: "\<forall>i < length ?seven. \<exists>reqs.
      fst (cont_requests (?seven ! i) (data_split_points ! (0 + i)) ?w1) = Inr reqs"
  proof (intro allI impI)
    fix i assume "i < length ?seven"
    then have "i < 7" by (simp add: wide_columns_def)
    then consider "i = 0" | "i = 1" | "i = 2" | "i = 3" | "i = 4" | "i = 5" | "i = 6" by linarith
    then have "\<not> isl (fst (cont_requests (?seven ! i) (data_split_points ! (0 + i)) ?w1))"
      using e0 e1 e2 e3 e4 e5 e6 by cases simp_all
    then show "\<exists>reqs. fst (cont_requests (?seven ! i) (data_split_points ! (0 + i)) ?w1) = Inr reqs"
      by (cases "fst (cont_requests (?seven ! i) (data_split_points ! (0 + i)) ?w1)") simp_all
  qed
  have absent: "\<forall>f \<in> set ?seven. map_of (frame ?w1) (f @ ''_group'') = None"
    by (simp add: wide_columns_def world0_def wide_frame_def)
  have r: "recording_fit = (\<lambda>r. Inr ((\<lambda>x. x) r))" by (simp add: recording_fit_def fun_eq_iff)
  have seven: "fst (cont_loop recording_fit 0 ?seven ?w1) = Inr ()"
    unfolding r
    by (rule cont_loop_succeeds[OF each absent, of "subplots 3 3"])
       (simp_all add: wide_columns_def length_data_split_points subplots_def)
  then have run: "cont_loop recording_fit 0 ?seven ?w1
      = (Inr (), snd (cont_loop recording_fit 0 ?seven ?w1))"
    by (simp add: prod_eq_iff)
  from more_than_seven_columns_fail[OF h, of recording_fit "world0 wide_frame"
         "snd (cont_loop recording_fit 0 ?seven ?w1)"] p run
  have ie: "fst (PlotKaplanMeierEstimatesForContinuousVariables recording_fit wide_columns
            (world0 wide_frame)) = Inl IndexError"
    by simp
  have h8: "7 < length eight_columns" by (simp add: eight_columns_def)
  from more_than_seven_columns_fail[OF h8, of recording_fit "world0 age_frame"]
  have any: "\<exists>e. fst (PlotKaplanMeierEstimatesForContinuousVariables recording_fit eight_columns
                 (world0 age_frame)) = Inl e"
    by blast
  from h p seven ie h8 any show ?thesis by (intro conjI)
qed

text \<open>The claim as stated fails there: the name \<^verbatim>\<open>bmi\<close> is not a column of the table,
  and the call raises the lookup error of the projection, not an index error.\<close>

theorem eight_columns_key_error_counterexample:
  "fst (PlotKaplanMeierEstimatesForContinuousVariables recording_fit eight_columns (world0 age_frame)) = Inl KeyError"
  by code_simp

subsection \<open>C9: the projection comes first\<close>

text \<open>
  C9. Both routines start with the projection of the table on the listed columns. When
  a listed column is missing they raise the lookup error there and leave the state as
  it was: no figure is created, no estimator call is made, the table is untouched.
  When all listed columns are present, the projected table plays no further part: the
  outcome is that of creating the figure, running the loop on the caller's table, hiding
  the last panels, setting the title and showing the figure.
\<close>

theorem missing_column_raises_first:
  "((\<exists>c \<in> set cols. map_of (frame w) c = None) \<longrightarrow>
       PlotKaplanMeierEstimatesForCategoricalVariables fit cols w = (Inl KeyError, w)
     \<and> PlotKaplanMeierEstimatesForContinuousVariables fit cols w = (Inl KeyError, w))
   \<and> ((\<forall>c \<in> set cols. map_of (frame w) c \<noteq> None) \<longrightarrow>
       PlotKaplanMeierEstimatesForCategoricalVariables fit cols w =
         (case cat_loop fit 0 cols (w\<lparr>axes := Some (subplots 2 3)\<rparr>) of
            (Inl e, w2) \<Rightarrow> (Inl e, w2)
          | (Inr u, w2) \<Rightarrow>
              (case hide_from_end 1 w2 of
                 (Inl e, w3) \<Rightarrow> (Inl e, w3)
               | (Inr u, w3) \<Rightarrow>
                   (Inr (), w3\<lparr>suptitle := Some ''Kaplan Meier Estimates for Categorical Variables '',
                               shown := True\<rparr>)))
     \<and> PlotKaplanMeierEstimatesForContinuousVariables fit cols w =
         (case cont_loop fit 0 cols (w\<lparr>axes := Some (subplots 3 3)\<rparr>) of
            (Inl e, w2) \<Rightarrow> (Inl e, w2)
          | (Inr u, w2) \<Rightarrow>
              (case hide_from_end 1 w2 of
                 (Inl e, w3) \<Rightarrow> (Inl e, w3)
               | (Inr u, w3) \<Rightarrow>
                   (case hide_from_end 2 w3 of
                      (Inl e, w4) \<Rightarrow> (Inl e, w4)
                    | (Inr u, w4) \<Rightarrow>
                        (Inr (), w4\<lparr>suptitle := Some ''Kaplan Meier Estimates for Continuous Variables '',
                                    shown := True\<rparr>)))))"
  by (auto simp: PlotKaplanMeierEstimatesForCategoricalVariables_def
                 PlotKaplanMeierEstimatesForContinuousVariables_def loc_columns_def Let_def)

text \<open>The eight names on the age table, where \<^verbatim>\<open>bmi\<close> is missing, and the single
  column \<^verbatim>\<open>age\<close>, which is present.\<close>

theorem missing_column_raises_first_witness:
  "''bmi'' \<in> set eight_columns \<and> map_of (frame (world0 age_frame)) ''bmi'' = None
   \<and> PlotKaplanMeierEstimatesForCategoricalVariables recording_fit eight_columns (world0 age_frame)
       = (Inl KeyError, world0 age_frame)
   \<and> PlotKaplanMeierEstimatesForContinuousVariables recording_fit eight_columns (world0 age_frame)
       = (Inl KeyError, world0 age_frame)
   \<and> map_of (frame (world0 age_frame)) ''age'' \<noteq> None
   \<and> PlotKaplanMeierEstimatesForCategoricalVariables recording_fit [''age''] (world0 age_frame) =
         (case cat_loop recording_fit 0 [''age''] ((world0 age_frame)\<lparr>axes := Some (subplots 2 3)\<rparr>) of
            (Inl e, w2) \<Rightarrow> (Inl e, w2)
          | (Inr u, w2) \<Rightarrow>
              (case hide_from_end 1 w2 of
                 (Inl e, w3) \<Rightarrow> (Inl e, w3)
               | (Inr u, w3) \<Rightarrow>
                   (Inr (), w3\<lparr>suptitle := Some ''Kaplan Meier Estimates for Categorical Variables '',
                               shown := True\<rparr>)))
   \<and> PlotKaplanMeierEstimatesForContinuousVariables recording_fit [''age''] (world0 age_frame) =
         (case cont_loop recording_fit 0 [''age''] ((world0 age_frame)\<lparr>axes := Some (subplots 3 3)\<rparr>) of
            (Inl e, w2) \<Rightarrow> (Inl e, w2)
          | (Inr u, w2) \<Rightarrow>
              (case hide_from_end 1 w2 of
                 (Inl e, w3) \<Rightarrow> (Inl e, w3)
               | (Inr u, w3) \<Rightarrow>
                   (case hide_from_end 2 w3 of
                      (Inl e, w4) \<Rightarrow> (Inl e, w4)
                    | (Inr u, w4) \<Rightarrow>
                        (Inr (), w4\<lparr>suptitle := Some ''Kaplan Meier Estimates for Continuous Variables '',
                                    shown := True\<rparr>))))"
proof -
  have m: "''bmi'' \<in> set eight_columns" by (simp add: eight_columns_def)
  have n: "map_of (frame (world0 age_frame)) ''bmi'' = None"
    by (simp add: world0_def age_frame_def)
  from m n have h: "\<exists>c \<in> set eight_columns. map_of (frame (world0 age_frame)) c = None" by blast
  have a: "map_of (frame (world0 age_frame)) ''age'' \<noteq> None"
    by (simp add: world0_def age_frame_def)
  then have a': "\<forall>c \<in> set [''age'']. map_of (frame (world0 age_frame)) c \<noteq> None" by simp
  note missing = missing_column_raises_first
      [where cols = eight_columns and w = "world0 age_frame" and fit = recording_fit,
       THEN conjunct1, THEN mp, OF h]
  note present = missing_column_raises_first
      [where cols = "[''age'']" and w = "world0 age_frame" and fit = recording_fit,
       THEN conjunct2, THEN mp, OF a']
  from m n a missing present show ?thesis by (intro conjI) blast+
qed

end
